theory Spec2Isabelle
  imports Complex_Main
begin

section \<open>Errors\<close>

text \<open>
  The Python exceptions that the modelled code can raise: \<open>ValueError\<close> (the check in
  \<open>Bilinear.__init__\<close>, a tuple unpacking of the wrong length), \<open>IndexError\<close> (an index
  or a slice applied to an axis the tensor does not have) and \<open>RuntimeError\<close> (shapes
  that do not broadcast, split or concatenate). A computation is a value of
  \<open>error + 'a\<close>, \<open>Inl\<close> the raised exception.
\<close>

datatype error = ValueError | IndexError | RuntimeError

definition and_then :: "error + 'a \<Rightarrow> ('a \<Rightarrow> error + 'b) \<Rightarrow> error + 'b" where
  "and_then r f = (case r of Inl e \<Rightarrow> Inl e | Inr x \<Rightarrow> f x)"

definition raises :: "error + 'a \<Rightarrow> bool" where
  "raises r = (case r of Inl e \<Rightarrow> True | Inr x \<Rightarrow> False)"

section \<open>Tensors\<close>

text \<open>
  A tensor is its shape and its elements in row-major order, as a contiguous
  \<open>torch.Tensor\<close> stores them. Its elements are real numbers; infinities and NaN are
  not part of the model. Where the source reads the dtype of a tensor to create another
  one and assigns values of another dtype to it, the dtype is an argument of the
  function and the cast of the assignment is written out (see \<open>Dtypes\<close> below). A tensor
  of dimension 0 has the shape \<open>[]\<close> and one element.
\<close>

datatype 'a tensor = Tensor (shape: "nat list") (data: "'a list")

definition wf :: "'a tensor \<Rightarrow> bool" where
  "wf t = (length (data t) = prod_list (shape t))"

definition tdim :: "'a tensor \<Rightarrow> nat" where
  "tdim t = length (shape t)"

definition blocks :: "nat \<Rightarrow> nat \<Rightarrow> 'a list \<Rightarrow> 'a list list" where
  \<comment> \<open>the first \<open>k\<close> consecutive blocks of \<open>n\<close> elements\<close>
  "blocks k n xs = map (\<lambda>i. take n (drop (i * n) xs)) [0..<k]"

definition rows :: "'a tensor \<Rightarrow> 'a list list" where
  \<comment> \<open>the vectors along the last axis, one for each index of the leading axes\<close>
  "rows t = blocks (prod_list (butlast (shape t))) (last (shape t)) (data t)"

definition map_rows :: "('a list \<Rightarrow> 'b list) \<Rightarrow> nat \<Rightarrow> 'a tensor \<Rightarrow> 'b tensor" where
  \<comment> \<open>the same leading axes, every vector along the last axis replaced, of new size \<open>n\<close>\<close>
  "map_rows g n t = Tensor (butlast (shape t) @ [n]) (concat (map g (rows t)))"

definition zeros :: "nat list \<Rightarrow> real tensor" where
  \<comment> \<open>\<open>torch.zeros(*sh)\<close>\<close>
  "zeros sh = Tensor sh (replicate (prod_list sh) 0)"

definition tmap :: "('a \<Rightarrow> 'b) \<Rightarrow> 'a tensor \<Rightarrow> 'b tensor" where
  \<comment> \<open>an elementwise operation with a Python scalar: \<open>-x\<close>, \<open>c * x\<close>, \<open>torch.abs(x) > c\<close>\<close>
  "tmap f t = Tensor (shape t) (map f (data t))"

subsection \<open>Dtypes\<close>

text \<open>
  A dtype is \<open>int64\<close> or a binary floating format \<open>Floating p emax\<close> of \<open>p\<close> bits of
  precision and largest exponent \<open>emax\<close>, its smallest exponent \<open>1 - emax\<close> as in IEEE
  754: \<open>float32\<close> is \<open>Floating 24 127\<close>, its smallest positive value \<open>2 ^ -149\<close>.
  \<open>round_to p emax x\<close> is the value of the format nearest to \<open>x\<close>, ties to the even
  significand, for \<open>x\<close> within the range of the format (an overflow to infinity is not
  part of the model): in the lowest two binades the values are the multiples of the
  smallest positive value; above them \<open>x\<close> is scaled by powers of 2 to a significand of
  \<open>p\<close> bits, which is rounded to an integer and scaled back.
\<close>

datatype dtype = Int64 | Floating nat nat

definition float16 :: dtype where
  "float16 = Floating 11 15"

definition float32 :: dtype where
  "float32 = Floating 24 127"

definition float64 :: dtype where
  "float64 = Floating 53 1023"

definition round_even :: "real \<Rightarrow> real" where
  \<comment> \<open>the nearest integer, a tie to the even one\<close>
  "round_even q =
     (let f = \<lfloor>q\<rfloor>
      in if q - of_int f < 1 / 2 then of_int f
         else if 1 / 2 < q - of_int f then of_int (f + 1)
         else if even f then of_int f else of_int (f + 1))"

primrec round_up :: "nat \<Rightarrow> nat \<Rightarrow> real \<Rightarrow> real" where
  \<comment> \<open>\<open>y\<close> is at least \<open>2 ^ (p - 1)\<close>: halved until it is below \<open>2 ^ p\<close>, at most \<open>n\<close> times\<close>
  "round_up p 0 y = round_even y"
| "round_up p (Suc n) y = (if y < 2 ^ p then round_even y else 2 * round_up p n (y / 2))"

primrec round_down :: "nat \<Rightarrow> nat \<Rightarrow> real \<Rightarrow> real" where
  \<comment> \<open>\<open>y\<close> is below \<open>2 ^ (p - 1)\<close>: doubled until it is not, at most \<open>n\<close> times\<close>
  "round_down p 0 y = round_even y"
| "round_down p (Suc n) y =
     (if 2 ^ (p - 1) \<le> y then round_even y else round_down p n (2 * y) / 2)"

definition round_to :: "nat \<Rightarrow> nat \<Rightarrow> real \<Rightarrow> real" where
  "round_to p emax x =
     (let s = \<bar>x\<bar> * 2 ^ (emax + p - 2); y = \<bar>x\<bar> * 2 ^ (p - 1)
      in if s < 2 ^ p then sgn x * round_even s / 2 ^ (emax + p - 2)
         else if 2 ^ (p - 1) \<le> y then sgn x * round_up p emax y / 2 ^ (p - 1)
         else sgn x * round_down p emax y / 2 ^ (p - 1))"

definition trunc :: "real \<Rightarrow> real" where
  \<comment> \<open>the cast of a floating value to an integer dtype: towards zero\<close>
  "trunc x = (if 0 \<le> x then of_int \<lfloor>x\<rfloor> else of_int \<lceil>x\<rceil>)"

fun convert :: "dtype \<Rightarrow> real \<Rightarrow> real" where
  \<comment> \<open>the cast of a value to a dtype\<close>
  "convert Int64 x = trunc x"
| "convert (Floating p emax) x = round_to p emax x"

fun result_dtype :: "dtype \<Rightarrow> dtype" where
  \<comment> \<open>the dtype of \<open>c * t\<close> for a Python float \<open>c\<close>: that of \<open>t\<close> when it is floating, else
      torch's default floating dtype, \<open>float32\<close>\<close>
  "result_dtype Int64 = Floating 24 127"
| "result_dtype (Floating p emax) = Floating p emax"

fun scalar_mul :: "dtype \<Rightarrow> real \<Rightarrow> real tensor \<Rightarrow> real tensor" where
  \<comment> \<open>\<open>c * t\<close> for a Python float \<open>c\<close> that is a value of the result dtype, and a tensor \<open>t\<close>
      of the given dtype: an integer tensor is cast to the result dtype first, and the
      product is rounded to it\<close>
  "scalar_mul Int64 c t = tmap (\<lambda>x. round_to 24 127 (c * round_to 24 127 x)) t"
| "scalar_mul (Floating p emax) c t = tmap (\<lambda>x. round_to p emax (c * x)) t"

definition setitem_cast :: "dtype \<Rightarrow> dtype \<Rightarrow> real tensor \<Rightarrow> real tensor" where
  \<comment> \<open>the value \<open>v\<close> of dtype \<open>src\<close> of an assignment into a tensor of dtype \<open>dst\<close>: copied
      when the dtypes agree, else cast\<close>
  "setitem_cast src dst v = (if src = dst then v else tmap (convert dst) v)"

subsection \<open>Broadcasting\<close>

fun bshape :: "nat list \<Rightarrow> nat list \<Rightarrow> nat list option" where
  \<comment> \<open>on reversed shapes: sizes are matched from the last axis on\<close>
  "bshape [] ys = Some ys"
| "bshape (x # xs) [] = Some (x # xs)"
| "bshape (x # xs) (y # ys) =
     (if x = y \<or> y = 1 then map_option ((#) x) (bshape xs ys)
      else if x = 1 then map_option ((#) y) (bshape xs ys)
      else None)"

definition broadcast_shapes :: "nat list \<Rightarrow> nat list \<Rightarrow> nat list option" where
  "broadcast_shapes a b = map_option rev (bshape (rev a) (rev b))"

definition pad_shape :: "nat \<Rightarrow> nat list \<Rightarrow> nat list" where
  \<comment> \<open>axes of size 1 in front, up to \<open>n\<close> axes\<close>
  "pad_shape n sh = replicate (n - length sh) 1 @ sh"

fun expand :: "nat list \<Rightarrow> nat list \<Rightarrow> 'a list \<Rightarrow> 'a list" where
  \<comment> \<open>the elements of a tensor of shape \<open>sh\<close> repeated along its axes of size 1 to the
      shape \<open>tg\<close>, both shapes of the same length\<close>
  "expand (s # sh) (t # tg) xs =
     (if s = t then concat (map (expand sh tg) (blocks s (prod_list sh) xs))
      else concat (replicate t (expand sh tg xs)))"
| "expand sh tg xs = xs"

definition expand_to :: "nat list \<Rightarrow> 'a tensor \<Rightarrow> 'a list" where
  "expand_to tg t = expand (pad_shape (length tg) (shape t)) tg (data t)"

definition binop :: "('a \<Rightarrow> 'b \<Rightarrow> 'c) \<Rightarrow> 'a tensor \<Rightarrow> 'b tensor \<Rightarrow> error + 'c tensor" where
  \<comment> \<open>an elementwise operation of two tensors: \<open>a / b\<close>, \<open>a + b\<close>, \<open>torch.where(c, a, s)\<close>\<close>
  "binop f a b =
     (case broadcast_shapes (shape a) (shape b) of
        None \<Rightarrow> Inl RuntimeError
      | Some sh \<Rightarrow> Inr (Tensor sh (map2 f (expand_to sh a) (expand_to sh b))))"

subsection \<open>Indexing the last axis\<close>


definition select_list :: "nat list \<Rightarrow> 'a tensor \<Rightarrow> error + 'a tensor" where
  \<comment> \<open>\<open>t[..., [i, j, ...]]\<close>: the last axis is kept\<close>
  "select_list is t =
     (if shape t = [] \<or> (\<exists>i \<in> set is. last (shape t) \<le> i) then Inl IndexError
      else Inr (map_rows (\<lambda>r. map (\<lambda>i. r ! i) is) (length is) t))"

definition slice_all :: "'a tensor \<Rightarrow> error + 'a tensor" where
  \<comment> \<open>\<open>t[..., :]\<close>\<close>
  "slice_all t = (if shape t = [] then Inl IndexError else Inr t)"

definition slice_last :: "nat \<Rightarrow> nat \<Rightarrow> 'a tensor \<Rightarrow> error + 'a tensor" where
  \<comment> \<open>\<open>t[..., a:b]\<close>\<close>
  "slice_last a b t =
     (if shape t = [] then Inl IndexError
      else let n = last (shape t); a' = min a n; b' = max a' (min b n)
           in Inr (map_rows (\<lambda>r. take (b' - a') (drop a' r)) (b' - a') t))"

definition setitem_value :: "nat list \<Rightarrow> 'a tensor \<Rightarrow> error + 'a list" where
  \<comment> \<open>the value of an assignment \<open>dst[...] = v\<close>, brought to the shape of \<open>dst[...]\<close>: copied
      when the shapes are equal, filled in when \<open>v\<close> has dimension 0, else expanded
      after its leading axes of size 1 are dropped\<close>
  "setitem_value dst v =
     (if shape v = dst then Inr (data v)
      else if shape v = [] then
        (case data v of [] \<Rightarrow> Inl RuntimeError | x # xs \<Rightarrow> Inr (replicate (prod_list dst) x))
      else let sh = dropWhile (\<lambda>n. n = 1) (shape v)
           in if length sh \<le> length dst \<and> broadcast_shapes dst sh = Some dst
              then Inr (expand (pad_shape (length dst) sh) dst (data v))
              else Inl RuntimeError)"

definition fill_last :: "nat \<Rightarrow> 'a \<Rightarrow> 'a tensor \<Rightarrow> error + 'a tensor" where
  \<comment> \<open>\<open>t[..., i] = c\<close> with a Python scalar \<open>c\<close>\<close>
  "fill_last i c t =
     (if shape t = [] \<or> last (shape t) \<le> i then Inl IndexError
      else Inr (map_rows (\<lambda>r. r[i := c]) (last (shape t)) t))"

definition set_last :: "nat \<Rightarrow> 'a tensor \<Rightarrow> 'a tensor \<Rightarrow> error + 'a tensor" where
  \<comment> \<open>\<open>t[..., i] = v\<close> with a tensor \<open>v\<close>\<close>
  "set_last i v t =
     (if shape t = [] \<or> last (shape t) \<le> i then Inl IndexError
      else and_then (setitem_value (butlast (shape t)) v) (\<lambda>xs.
        Inr (Tensor (shape t) (concat (map2 (\<lambda>r x. r[i := x]) (rows t) xs)))))"

definition set_slice :: "nat \<Rightarrow> nat \<Rightarrow> 'a tensor \<Rightarrow> 'a tensor \<Rightarrow> error + 'a tensor" where
  \<comment> \<open>\<open>t[..., a:b] = v\<close> with a tensor \<open>v\<close>\<close>
  "set_slice a b v t =
     (if shape t = [] then Inl IndexError
      else let n = last (shape t); a' = min a n; b' = max a' (min b n)
           in and_then (setitem_value (butlast (shape t) @ [b' - a']) v) (\<lambda>xs.
                Inr (Tensor (shape t)
                  (concat (map2 (\<lambda>r x. take a' r @ x @ drop b' r)
                     (rows t) (blocks (prod_list (butlast (shape t))) (b' - a') xs))))))"

subsection \<open>The channel axis\<close>

text \<open>
  \<open>torch.split(t, split_size, dim=-2)\<close> and \<open>torch.cat([a, b], dim=-2)\<close> on the axis
  before the last one, the channel axis of a multivector tensor. \<open>split\<close> cuts the axis
  into chunks of \<open>split_size\<close> channels, the last one smaller when the size of the axis
  is not a multiple, and into one chunk when the axis is empty; it raises on a tensor
  of dimension 0, on a tensor without the axis and on a negative size. \<open>cat\<close> raises
  \<open>RuntimeError\<close> on an operand of dimension 0, skips an operand of shape \<open>[0]\<close>, takes the
  axis from the first operand it does not skip (\<open>IndexError\<close> when that one has a single
  axis), and raises \<open>RuntimeError\<close> when the operands differ in their number of axes or
  in an axis other than the channel axis.
\<close>

definition mats :: "'a tensor \<Rightarrow> 'a list list" where
  \<comment> \<open>the matrices of the last two axes, one for each index of the leading axes\<close>
  "mats t = blocks (prod_list (butlast (butlast (shape t))))
              (last (butlast (shape t)) * last (shape t)) (data t)"

definition narrow2 :: "nat \<Rightarrow> nat \<Rightarrow> 'a tensor \<Rightarrow> 'a tensor" where
  \<comment> \<open>the channels \<open>start, ..., start + len - 1\<close>\<close>
  "narrow2 start len t =
     (let m = last (shape t)
      in Tensor (butlast (butlast (shape t)) @ [len, m])
           (concat (map (\<lambda>b. take (len * m) (drop (start * m) b)) (mats t))))"

definition split2 :: "int \<Rightarrow> 'a tensor \<Rightarrow> error + 'a tensor list" where
  "split2 split_size t =
     (if tdim t = 0 then Inl RuntimeError
      else if split_size < 0 then Inl RuntimeError
      else if tdim t < 2 then Inl IndexError
      else let c = last (butlast (shape t)); s = nat split_size
           in if s = 0 then (if c = 0 then Inr [t] else Inl RuntimeError)
              else Inr (map (\<lambda>j. narrow2 (j * s) (min s (c - j * s)) t)
                          [0..<max ((c + s - 1) div s) 1]))"

definition unpack4 :: "'a list \<Rightarrow> error + ('a \<times> 'a \<times> 'a \<times> 'a)" where
  \<comment> \<open>\<open>a, b, c, d = xs\<close>\<close>
  "unpack4 xs = (case xs of [a, b, c, d] \<Rightarrow> Inr (a, b, c, d) | _ \<Rightarrow> Inl ValueError)"

definition cat2 :: "'a tensor \<Rightarrow> 'a tensor \<Rightarrow> error + 'a tensor" where
  "cat2 a b =
     (if tdim a = 0 \<or> tdim b = 0 then Inl RuntimeError
      else if shape a = [0] then
        (if shape b = [0] then Inr (Tensor [0] [])
         else if tdim b < 2 then Inl IndexError
         else Inr b)
      else if tdim a < 2 then Inl IndexError
      else if shape b = [0] then Inr a
      else if tdim b \<noteq> tdim a
              \<or> butlast (butlast (shape a)) \<noteq> butlast (butlast (shape b))
              \<or> last (shape a) \<noteq> last (shape b) then Inl RuntimeError
      else Inr (Tensor (butlast (butlast (shape a))
                        @ [last (butlast (shape a)) + last (butlast (shape b)), last (shape a)])
                  (concat (map2 (@) (mats a) (mats b)))))"

section \<open>The PGA codec: \<open>ezgatr/utils/encode.py\<close>\<close>

text \<open>
  \<open>geometric_product\<close> of \<open>ezgatr.primitives.bilinear\<close> is not part of the sources at
  hand: \<open>Plane_encode\<close> takes it as a parameter. A method whose body is \<open>pass\<close> returns
  Python's \<open>None\<close>, the \<open>None\<close> of an option here.
\<close>

type_synonym product = "real tensor \<Rightarrow> real tensor \<Rightarrow> error + real tensor"

subsection \<open>Translation\<close>

definition Translation_encode :: "dtype \<Rightarrow> real tensor \<Rightarrow> error + real tensor" where
  \<comment> \<open>\<open>dtype\<close> is \<open>delta.dtype\<close>, which \<open>mvs\<close> takes: \<open>1.0\<close> is a value of every dtype, and
      the product \<open>-0.5 * delta\<close>, of the result dtype, is cast to \<open>delta.dtype\<close> by the
      assignment\<close>
  "Translation_encode dtype delta =
     (let mvs = zeros (butlast (shape delta) @ [16])
      in and_then (fill_last 0 1 mvs) (\<lambda>mvs.
         and_then (slice_all delta) (\<lambda>d.
           set_slice 5 8 (setitem_cast (result_dtype dtype) dtype (scalar_mul dtype (- 0.5) d))
             mvs)))"

definition Translation_decode :: "real tensor \<Rightarrow> bool \<Rightarrow> real \<Rightarrow> error + real tensor" where
  \<comment> \<open>Where the denominator is 0 (a threshold that is not positive and a scalar component
      0) the program yields an infinity or NaN; a real tensor cannot hold one, and no
      statement below is about the quotient there. The products and quotients are the
      exact ones: the program's are where they are values of the dtype, as the doubling
      of a halved value and the division by 1 are.\<close>
  "Translation_decode mvs divide_by_embedding_dim threshold =
     and_then (slice_last 5 8 mvs) (\<lambda>s.
       let delta = tmap (\<lambda>x. - 2.0 * x) s
       in if divide_by_embedding_dim
          then and_then (select_list [0] mvs) (\<lambda>embedding_dim.
               and_then (binop (\<lambda>c x. if c then x else threshold)
                           (tmap (\<lambda>x. \<bar>x\<bar> > threshold) embedding_dim) embedding_dim)
                 (\<lambda>embedding_dim. binop (\<lambda>x y. x / y) delta embedding_dim))
          else Inr delta)"

definition default_threshold :: real where
  "default_threshold = 1 / 1000"

subsection \<open>Point\<close>


definition Point_decode :: "real tensor \<Rightarrow> error + real tensor option" where
  "Point_decode mvs = Inr None"

subsection \<open>Plane and Reflection\<close>

definition Plane_encode ::
    "product \<Rightarrow> dtype \<Rightarrow> dtype \<Rightarrow> real tensor \<Rightarrow> real tensor \<Rightarrow> error + real tensor" where
  \<comment> \<open>\<open>ndtype\<close> is \<open>normals.dtype\<close>, which \<open>mvs\<close> takes, and \<open>ddtype\<close> is \<open>distance.dtype\<close>\<close>
  "Plane_encode geometric_product ndtype ddtype normals distance =
     (let mvs = zeros (butlast (shape normals) @ [16])
      in and_then (slice_all normals) (\<lambda>n.
         and_then (set_slice 2 5 n mvs) (\<lambda>mvs.
           if tdim distance = 1 then set_last 1 (setitem_cast ddtype ndtype distance) mvs
           else
             and_then (Translation_encode ddtype distance) (\<lambda>translation.
             and_then (Translation_encode ddtype (tmap uminus distance)) (\<lambda>inverse_translation.
             and_then (geometric_product translation mvs) (\<lambda>p.
               geometric_product p inverse_translation))))))"

definition Plane_decode :: "real tensor \<Rightarrow> error + real tensor option" where
  "Plane_decode mvs = Inr None"

definition Reflection_encode ::
    "product \<Rightarrow> dtype \<Rightarrow> dtype \<Rightarrow> real tensor \<Rightarrow> real tensor \<Rightarrow> error + real tensor" where
  "Reflection_encode geometric_product ndtype pdtype normals positions =
     Plane_encode geometric_product ndtype pdtype normals positions"

definition Reflection_decode :: "real tensor \<Rightarrow> error + real tensor option" where
  "Reflection_decode mvs = Plane_decode mvs"

subsection \<open>Rotation\<close>

definition Rotation_encode :: "real tensor \<Rightarrow> error + real tensor option" where
  "Rotation_encode quaternions = Inr None"

definition Rotation_decode :: "real tensor \<Rightarrow> error + real tensor option" where
  "Rotation_decode mvs = Inr None"

section \<open>The network layers: \<open>ezgatr/nets/mv_only_gatr.py\<close>\<close>

text \<open>
  \<open>EquiLinear\<close>, \<open>EquiRMSNorm\<close>, \<open>geometric_product\<close>, \<open>equi_join\<close> and
  \<open>scaler_gated_gelu\<close> of \<open>ezgatr.nn\<close> are not part of the sources at hand. The layers
  take them as parameters: a constructor returns the map that the constructed module
  applies, or the exception it raises, and a module or function applied to a tensor
  returns a tensor or raises.
\<close>

record ModelConfig =
  size_context :: int
  size_channels_in :: int
  size_channels_out :: int
  size_channels_hidden :: int
  size_channels_intermediate :: int
  norm_eps :: "real option"
  norm_channelwise_rescale :: bool

definition ModelConfig_default :: ModelConfig where
  "ModelConfig_default =
     \<lparr>size_context = 2048, size_channels_in = 1, size_channels_out = 1,
      size_channels_hidden = 32, size_channels_intermediate = 32,
      norm_eps = None, norm_channelwise_rescale = True\<rparr>"

type_synonym layer = "real tensor \<Rightarrow> error + real tensor"

type_synonym join = "real tensor \<Rightarrow> real tensor \<Rightarrow> real tensor option \<Rightarrow> error + real tensor"

record Bilinear =
  bil_config :: ModelConfig
  bil_proj_bil :: layer
  bil_proj_out :: layer

definition Bilinear_init :: "(int \<Rightarrow> int \<Rightarrow> error + layer) \<Rightarrow> ModelConfig \<Rightarrow> error + Bilinear" where
  "Bilinear_init EquiLinear cfg =
     (if size_channels_intermediate cfg mod 2 \<noteq> 0 then Inl ValueError
      else
        and_then (EquiLinear (size_channels_hidden cfg) (size_channels_intermediate cfg * 2))
          (\<lambda>pb.
        and_then (EquiLinear (size_channels_intermediate cfg) (size_channels_hidden cfg))
          (\<lambda>po.
          Inr \<lparr>bil_config = cfg, bil_proj_bil = pb, bil_proj_out = po\<rparr>)))"

definition Bilinear_forward ::
    "product \<Rightarrow> join \<Rightarrow> Bilinear \<Rightarrow> real tensor \<Rightarrow> real tensor option \<Rightarrow> error + real tensor" where
  "Bilinear_forward geometric_product equi_join self x reference =
     (let size_inter = size_channels_intermediate (bil_config self) div 2
      in and_then (bil_proj_bil self x) (\<lambda>y.
         and_then (split2 size_inter y) (\<lambda>chunks.
         and_then (unpack4 chunks) (\<lambda>(lg, rg, lj, rj).
         and_then (geometric_product lg rg) (\<lambda>g.
         and_then (equi_join lj rj reference) (\<lambda>j.
         and_then (cat2 g j) (\<lambda>x.
           bil_proj_out self x)))))))"

record MLP =
  mlp_config :: ModelConfig
  mlp_layer_norm :: layer
  mlp_equi_bil :: Bilinear
  mlp_proj_out :: layer

definition MLP_init ::
    "(int \<Rightarrow> real option \<Rightarrow> bool \<Rightarrow> error + layer) \<Rightarrow> (int \<Rightarrow> int \<Rightarrow> error + layer)
       \<Rightarrow> ModelConfig \<Rightarrow> error + MLP" where
  "MLP_init EquiRMSNorm EquiLinear cfg =
     and_then (EquiRMSNorm (size_channels_hidden cfg) (norm_eps cfg)
                 (norm_channelwise_rescale cfg)) (\<lambda>ln.
     and_then (Bilinear_init EquiLinear cfg) (\<lambda>bil.
     and_then (EquiLinear (size_channels_hidden cfg) (size_channels_hidden cfg)) (\<lambda>po.
       Inr \<lparr>mlp_config = cfg, mlp_layer_norm = ln, mlp_equi_bil = bil, mlp_proj_out = po\<rparr>)))"

definition MLP_forward ::
    "product \<Rightarrow> join \<Rightarrow> layer \<Rightarrow> MLP \<Rightarrow> real tensor \<Rightarrow> real tensor option \<Rightarrow> error + real tensor" where
  "MLP_forward geometric_product equi_join scaler_gated_gelu self x reference =
     (let residual = x
      in and_then (mlp_layer_norm self x) (\<lambda>x.
         and_then (Bilinear_forward geometric_product equi_join (mlp_equi_bil self) x reference)
           (\<lambda>x.
         and_then (scaler_gated_gelu x) (\<lambda>a.
         and_then (mlp_proj_out self a) (\<lambda>x.
           binop (+) x residual)))))"

subsection \<open>Contracts of the layers' collaborators\<close>

text \<open>
  What the layers need of their collaborators, for multivector tensors (a last axis of
  16 components) of one batch shape \<open>lead\<close>, and no more: the specification gives no
  other contract.
\<close>

definition channel_map :: "nat list \<Rightarrow> nat \<Rightarrow> nat \<Rightarrow> layer \<Rightarrow> bool" where
  \<comment> \<open>Modelled from the spec: the module that \<open>EquiLinear(c_in, c_out)\<close> constructs is
      missing; it maps the channel axis from \<open>c_in\<close> to \<open>c_out\<close> channels, the multivector
      axis of size 16 and the other axes preserved.\<close>
  "channel_map lead c_in c_out f =
     (\<forall>t. wf t \<and> shape t = lead @ [c_in, 16] \<longrightarrow>
        (\<exists>u. f t = Inr u \<and> wf u \<and> shape u = lead @ [c_out, 16]))"

definition product_contract :: "nat list \<Rightarrow> nat \<Rightarrow> product \<Rightarrow> bool" where
  \<comment> \<open>Modelled from the spec: \<open>geometric_product\<close> is missing; it is applied over matching
      leading and channel axes and is closed over the 16 components.\<close>
  "product_contract lead c geometric_product =
     (\<forall>a b. wf a \<and> wf b \<and> shape a = lead @ [c, 16] \<and> shape b = lead @ [c, 16] \<longrightarrow>
        (\<exists>u. geometric_product a b = Inr u \<and> wf u \<and> shape u = lead @ [c, 16]))"

definition join_contract :: "nat list \<Rightarrow> nat \<Rightarrow> real tensor option \<Rightarrow> join \<Rightarrow> bool" where
  \<comment> \<open>Modelled from the spec: \<open>equi_join\<close> is missing; with the reference at hand its
      output channel count equals its input channel count.\<close>
  "join_contract lead c reference equi_join =
     (\<forall>a b. wf a \<and> wf b \<and> shape a = lead @ [c, 16] \<and> shape b = lead @ [c, 16] \<longrightarrow>
        (\<exists>u. equi_join a b reference = Inr u \<and> wf u \<and> shape u = lead @ [c, 16]))"

definition zero_linear :: "int \<Rightarrow> int \<Rightarrow> error + layer" where
  \<comment> \<open>Modelled from the spec: \<open>EquiLinear\<close> is missing; this is the linear map with all
      weights 0, which raises on a tensor that has not \<open>c_in\<close> channels. It instantiates
      the contract in the examples.\<close>
  "zero_linear c_in c_out =
     Inr (\<lambda>t. if 2 \<le> tdim t \<and> last (butlast (shape t)) = nat c_in
              then Inr (zeros (butlast (butlast (shape t)) @ [nat c_out, last (shape t)]))
              else Inl RuntimeError)"

section \<open>Blocks, rows and broadcasting\<close>

lemma length_blocks [simp]: "length (blocks k n xs) = k"
  by (simp add: blocks_def)

lemma blocks_0 [simp]: "blocks 0 n xs = []"
  by (simp add: blocks_def)

lemma blocks_Suc: "blocks (Suc k) n xs = take n xs # blocks k n (drop n xs)"
proof -
  have "[0..<Suc k] = 0 # map Suc [0..<k]"
    by (simp add: upt_conv_Cons map_Suc_upt del: upt_Suc)
  then show ?thesis
    by (simp add: blocks_def comp_def add.commute del: upt_Suc)
qed

lemma blocks_concat:
  "\<forall>r \<in> set rs. length r = n \<Longrightarrow> blocks (length rs) n (concat rs) = rs"
  by (induction rs) (simp_all add: blocks_Suc)

lemma concat_blocks: "length xs = k * n \<Longrightarrow> concat (blocks k n xs) = xs"
proof (induction k arbitrary: xs)
  case 0
  then show ?case by simp
next
  case (Suc k)
  then have "concat (blocks k n (drop n xs)) = drop n xs" by simp
  then show ?case by (simp add: blocks_Suc)
qed

lemma blocks_row_length:
  assumes "k * n \<le> length xs" and "r \<in> set (blocks k n xs)"
  shows "length r = n"
proof -
  from assms(2) obtain i where i: "i < k" and r: "r = take n (drop (i * n) xs)"
    by (auto simp: blocks_def)
  from i have "Suc i * n \<le> k * n"
    by (intro mult_le_mono1) simp
  with assms(1) have "i * n + n \<le> length xs" by simp
  with r show ?thesis by simp
qed

lemma blocks_replicate:
  "blocks k n (replicate (k * n) x) = replicate k (replicate n x)"
  by (induction k) (simp_all add: blocks_Suc min_def)


lemma blocks_map: "blocks k n (map f xs) = map (map f) (blocks k n xs)"
  by (simp add: blocks_def take_map drop_map)

lemma length_concat_uniform:
  "\<forall>r \<in> set rs. length r = n \<Longrightarrow> length (concat rs) = length rs * n"
  by (induction rs) simp_all

lemma concat_map_replicate:
  "concat (map (\<lambda>r. replicate n x) rs) = replicate (length rs * n) x"
  by (induction rs) (simp_all add: replicate_add)

lemma rows_eq: "shape t = sh @ [n] \<Longrightarrow> rows t = blocks (prod_list sh) n (data t)"
  by (simp add: rows_def)

lemma length_rows: "shape t = sh @ [n] \<Longrightarrow> length (rows t) = prod_list sh"
  by (simp add: rows_eq)

lemma row_length:
  "shape t = sh @ [n] \<Longrightarrow> wf t \<Longrightarrow> r \<in> set (rows t) \<Longrightarrow> length r = n"
  by (rule blocks_row_length [of "prod_list sh" n "data t"]) (simp_all add: rows_eq wf_def)

lemma concat_rows: "shape t = sh @ [n] \<Longrightarrow> wf t \<Longrightarrow> concat (rows t) = data t"
  by (simp add: rows_eq wf_def concat_blocks)

lemma shape_map_rows: "shape t = sh @ [n] \<Longrightarrow> shape (map_rows g n' t) = sh @ [n']"
  by (simp add: map_rows_def)

lemma rows_map_rows:
  assumes "shape t = sh @ [n]" and "\<forall>r \<in> set (rows t). length (g r) = n'"
  shows "rows (map_rows g n' t) = map g (rows t)"
proof -
  have "blocks (length (map g (rows t))) n' (concat (map g (rows t))) = map g (rows t)"
    using assms(2) by (intro blocks_concat) simp
  with assms(1) show ?thesis
    by (simp add: rows_def map_rows_def)
qed

lemma wf_map_rows:
  assumes "shape t = sh @ [n]" and "\<forall>r \<in> set (rows t). length (g r) = n'"
  shows "wf (map_rows g n' t)"
proof -
  have "length (concat (map g (rows t))) = length (map g (rows t)) * n'"
    using assms(2) by (intro length_concat_uniform) simp
  with assms(1) show ?thesis
    by (simp add: wf_def map_rows_def length_rows)
qed

lemma map_rows_map_rows:
  assumes "shape t = sh @ [n]" and "\<forall>r \<in> set (rows t). length (g r) = n'"
  shows "map_rows h n'' (map_rows g n' t) = map_rows (\<lambda>r. h (g r)) n'' t"
  using assms rows_map_rows [OF assms]
  by (simp add: map_rows_def comp_def)

lemma map_rows_cong:
  "\<forall>r \<in> set (rows t). g r = h r \<Longrightarrow> map_rows g n t = map_rows h n t"
  by (simp add: map_rows_def cong: map_cong)

lemma map_rows_id: "shape t = sh @ [n] \<Longrightarrow> wf t \<Longrightarrow> map_rows (\<lambda>r. r) n t = t"
  by (cases t) (simp add: map_rows_def concat_rows)

lemma zeros_map_rows:
  "shape t = sh @ [n] \<Longrightarrow> zeros (butlast (shape t) @ [m]) = map_rows (\<lambda>r. replicate m 0) m t"
  by (simp add: zeros_def map_rows_def concat_map_replicate length_rows)

lemma rows_tmap: "rows (tmap f t) = map (map f) (rows t)"
  by (simp add: rows_def tmap_def blocks_map)

lemma tmap_map_rows: "shape t = sh @ [n] \<Longrightarrow> wf t \<Longrightarrow> tmap f t = map_rows (map f) n t"
  by (simp add: tmap_def map_rows_def map_concat [symmetric] concat_rows)


lemma fill_last_map_rows:
  "shape t = sh @ [n] \<Longrightarrow> i < n \<Longrightarrow> fill_last i c t = Inr (map_rows (\<lambda>r. r[i := c]) n t)"
  by (simp add: fill_last_def)

lemma slice_all_ok: "shape t = sh @ [n] \<Longrightarrow> slice_all t = Inr t"
  by (simp add: slice_all_def)

lemma slice_last_map_rows:
  "shape t = sh @ [n] \<Longrightarrow> a \<le> b \<Longrightarrow> b \<le> n \<Longrightarrow>
   slice_last a b t = Inr (map_rows (\<lambda>r. take (b - a) (drop a r)) (b - a) t)"
  by (simp add: slice_last_def Let_def min_def max_def)

lemma select_list_map_rows:
  "shape t = sh @ [n] \<Longrightarrow> \<forall>i \<in> set is. i < n \<Longrightarrow>
   select_list is t = Inr (map_rows (\<lambda>r. map (\<lambda>i. r ! i) is) (length is) t)"
  by (auto simp: select_list_def)

lemma set_slice_map_rows:
  assumes d: "shape d = sh @ [k]"
    and G: "\<forall>r \<in> set (rows d). length (G r) = n"
    and V: "\<forall>r \<in> set (rows d). length (V r) = b - a"
    and ab: "a \<le> b" "b \<le> n"
  shows "set_slice a b (map_rows V (b - a) d) (map_rows G n d)
         = Inr (map_rows (\<lambda>r. take a (G r) @ V r @ drop b (G r)) n d)"
proof -
  let ?t = "map_rows G n d" and ?v = "map_rows V (b - a) d"
  have st: "shape ?t = sh @ [n]" and sv: "shape ?v = sh @ [b - a]"
    using d by (simp_all add: map_rows_def)
  have rt: "rows ?t = map G (rows d)"
    using d G by (rule rows_map_rows)
  have rv: "blocks (prod_list sh) (b - a) (data ?v) = map V (rows d)"
    using rows_map_rows [OF d V] sv by (simp add: rows_eq)
  have "setitem_value (sh @ [b - a]) ?v = Inr (data ?v)"
    using sv by (simp add: setitem_value_def)
  then show ?thesis
    using st ab rt rv
    by (simp add: set_slice_def Let_def min_def max_def and_then_def map_rows_def
        map2_map_map)
qed

lemma list3: "length r = 3 \<Longrightarrow> r = [r ! 0, r ! 1, r ! 2]"
  by (cases r; cases "tl r"; cases "tl (tl r)") auto

lemma Translation_encode_rows:
  assumes sh: "shape t = sh @ [3]" and wf: "wf t"
    and g: "setitem_cast (result_dtype dt) dt (scalar_mul dt (- 0.5) t) = tmap g t"
  shows "Translation_encode dt t = Inr (map_rows
           (\<lambda>r. [1, 0, 0, 0, 0, g (r ! 0), g (r ! 1), g (r ! 2),
             0, 0, 0, 0, 0, 0, 0, 0]) 16 t)"
    (is "_ = Inr (map_rows ?T 16 t)")
proof -
  let ?Z = "\<lambda>r::real list. (replicate 16 0)[0 := 1::real]"
  let ?V = "map g"
  have len3: "\<forall>r \<in> set (rows t). length r = 3"
    using row_length [OF sh wf] by blast
  have z: "zeros (butlast (shape t) @ [16]) = map_rows (\<lambda>r. replicate 16 0) 16 t"
    using sh by (rule zeros_map_rows)
  have f: "fill_last 0 1 (map_rows (\<lambda>r. replicate 16 0) 16 t) = Inr (map_rows ?Z 16 t)"
    using sh by (simp add: fill_last_map_rows [where sh = sh] shape_map_rows
        map_rows_map_rows [where sh = sh and n = 3])
  have v: "tmap g t = map_rows ?V (8 - 5) t"
    using tmap_map_rows [OF sh wf] by simp
  have s: "set_slice 5 8 (map_rows ?V (8 - 5) t) (map_rows ?Z 16 t)
           = Inr (map_rows (\<lambda>r. take 5 (?Z r) @ ?V r @ drop 8 (?Z r)) 16 t)"
    using sh len3 by (intro set_slice_map_rows) simp_all
  have e: "map_rows (\<lambda>r. take 5 (?Z r) @ ?V r @ drop 8 (?Z r)) 16 t
           = map_rows ?T 16 t"
  proof (rule map_rows_cong, rule ballI)
    fix r assume "r \<in> set (rows t)"
    with len3 have "length r = 3" by blast
    then obtain x y z where "r = [x, y, z]"
      using list3 by blast
    then show "take 5 (?Z r) @ ?V r @ drop 8 (?Z r) = ?T r"
      by (simp add: numeral_eq_Suc)
  qed
  show ?thesis
    unfolding Translation_encode_def Let_def z f and_then_def sum.case
      slice_all_ok [OF sh] g v s e ..
qed

lemma stored_Floating:
  "setitem_cast (result_dtype (Floating p e)) (Floating p e) (scalar_mul (Floating p e) c t)
   = tmap (\<lambda>x. round_to p e (c * x)) t"
  by (simp add: setitem_cast_def)

lemma stored_Int64:
  "setitem_cast (result_dtype Int64) Int64 (scalar_mul Int64 c t)
   = tmap (\<lambda>x. trunc (round_to 24 127 (c * round_to 24 127 x))) t"
  by (simp add: setitem_cast_def tmap_def)

lemma Translation_encode_Floating_rows:
  assumes sh: "shape t = sh @ [3]" and wf: "wf t"
  shows "Translation_encode (Floating p e) t = Inr (map_rows
           (\<lambda>r. [1, 0, 0, 0, 0, round_to p e (- 0.5 * r ! 0), round_to p e (- 0.5 * r ! 1),
                 round_to p e (- 0.5 * r ! 2), 0, 0, 0, 0, 0, 0, 0, 0]) 16 t)"
  using Translation_encode_rows [OF sh wf stored_Floating] .

lemma Translation_encode_exact_rows:
  assumes sh: "shape t = sh @ [3]" and wf: "wf t"
    and ex: "\<forall>x \<in> set (data t). round_to p e (- 0.5 * x) = - 0.5 * x"
  shows "Translation_encode (Floating p e) t = Inr (map_rows
           (\<lambda>r. [1, 0, 0, 0, 0, - 0.5 * r ! 0, - 0.5 * r ! 1, - 0.5 * r ! 2,
                 0, 0, 0, 0, 0, 0, 0, 0]) 16 t)"
proof -
  have "tmap (\<lambda>x. round_to p e (- 0.5 * x)) t = tmap (\<lambda>x. - 0.5 * x) t"
    using ex by (simp add: tmap_def cong: map_cong)
  then have "setitem_cast (result_dtype (Floating p e)) (Floating p e)
               (scalar_mul (Floating p e) (- 0.5) t) = tmap (\<lambda>x. - 0.5 * x) t"
    by (simp only: stored_Floating)
  from Translation_encode_rows [OF sh wf this] show ?thesis .
qed





lemma bshape_same: "bshape xs xs = Some xs"
  by (induction xs) simp_all

lemma broadcast_shapes_same: "broadcast_shapes sh sh = Some sh"
  by (simp add: broadcast_shapes_def bshape_same)

lemma broadcast_shapes_last1: "broadcast_shapes (sh @ [k]) (sh @ [Suc 0]) = Some (sh @ [k])"
  by (simp add: broadcast_shapes_def bshape_same)

lemma pad_shape_same: "pad_shape (length sh) sh = sh"
  by (simp add: pad_shape_def)

lemma pad_shape_snoc: "pad_shape (length (sh @ [k])) (sh @ [j]) = sh @ [j]"
  by (simp add: pad_shape_def)

lemma expand_same: "length xs = prod_list sh \<Longrightarrow> expand sh sh xs = xs"
proof (induction sh arbitrary: xs)
  case Nil
  then show ?case by simp
next
  case (Cons s sh)
  have "\<forall>b \<in> set (blocks s (prod_list sh) xs). expand sh sh b = b"
    using Cons.prems by (auto intro!: Cons.IH blocks_row_length [of s "prod_list sh" xs])
  then have "map (expand sh sh) (blocks s (prod_list sh) xs) = blocks s (prod_list sh) xs"
    by (simp add: map_idI)
  with Cons.prems show ?case
    by (simp add: concat_blocks)
qed

lemma concat_map_concat:
  "concat (map (\<lambda>b. concat (map g b)) bs) = concat (map g (concat bs))"
  by (induction bs) simp_all

lemma expand_last1:
  "length xs = prod_list sh \<Longrightarrow>
   expand (sh @ [Suc 0]) (sh @ [k]) xs = concat (map (replicate k) xs)"
proof (induction sh arbitrary: xs)
  case Nil
  then obtain x where "xs = [x]"
    by (cases xs) simp_all
  then show ?case
    by (cases "k = Suc 0") (simp_all add: blocks_def)
next
  case (Cons s sh)
  let ?bs = "blocks s (prod_list sh) xs"
  have "\<forall>b \<in> set ?bs. expand (sh @ [Suc 0]) (sh @ [k]) b = concat (map (replicate k) b)"
    using Cons.prems by (auto intro!: Cons.IH blocks_row_length [of s "prod_list sh" xs])
  then have "concat (map (expand (sh @ [Suc 0]) (sh @ [k])) ?bs)
             = concat (map (\<lambda>b. concat (map (replicate k) b)) ?bs)"
    by (simp cong: map_cong)
  also have "\<dots> = concat (map (replicate k) (concat ?bs))"
    by (rule concat_map_concat)
  also have "concat ?bs = xs"
    using Cons.prems by (simp add: concat_blocks)
  finally show ?case by simp
qed

lemma map2_concat:
  "\<forall>r \<in> set rs. length (A r) = length (B r) \<Longrightarrow>
   map2 f (concat (map A rs)) (concat (map B rs)) = concat (map (\<lambda>r. map2 f (A r) (B r)) rs)"
  by (induction rs) simp_all

lemma binop_same_rows:
  assumes d: "shape d = sh @ [n]"
    and A: "\<forall>r \<in> set (rows d). length (A r) = k"
    and B: "\<forall>r \<in> set (rows d). length (B r) = k"
  shows "binop f (map_rows A k d) (map_rows B k d)
         = Inr (map_rows (\<lambda>r. map2 f (A r) (B r)) k d)"
proof -
  have la: "length (data (map_rows A k d)) = prod_list (sh @ [k])"
    using wf_map_rows [OF d A] d by (simp add: wf_def map_rows_def)
  have lb: "length (data (map_rows B k d)) = prod_list (sh @ [k])"
    using wf_map_rows [OF d B] d by (simp add: wf_def map_rows_def)
  have ea: "expand_to (sh @ [k]) (map_rows A k d) = concat (map A (rows d))"
    unfolding expand_to_def using d la
    by (simp add: map_rows_def pad_shape_def expand_same)
  have eb: "expand_to (sh @ [k]) (map_rows B k d) = concat (map B (rows d))"
    unfolding expand_to_def using d lb
    by (simp add: map_rows_def pad_shape_def expand_same)
  have "map2 f (concat (map A (rows d))) (concat (map B (rows d)))
        = concat (map (\<lambda>r. map2 f (A r) (B r)) (rows d))"
    using A B by (intro map2_concat) simp
  then show ?thesis
    using d ea eb
    by (simp add: binop_def map_rows_def broadcast_shapes_same)
qed

lemma binop_bcast_rows:
  assumes d: "shape d = sh @ [n]"
    and A: "\<forall>r \<in> set (rows d). length (A r) = k"
  shows "binop f (map_rows A k d) (map_rows (\<lambda>r. [e r]) 1 d)
         = Inr (map_rows (\<lambda>r. map (\<lambda>x. f x (e r)) (A r)) k d)"
proof -
  let ?b = "map_rows (\<lambda>r. [e r]) 1 d"
  have la: "length (data (map_rows A k d)) = prod_list (sh @ [k])"
    using wf_map_rows [OF d A] d by (simp add: wf_def map_rows_def)
  have db: "data ?b = map e (rows d)"
    by (simp add: map_rows_def)
  have ea: "expand_to (sh @ [k]) (map_rows A k d) = concat (map A (rows d))"
    unfolding expand_to_def using d la
    by (simp add: map_rows_def pad_shape_def expand_same)
  have "expand_to (sh @ [k]) ?b = expand (sh @ [Suc 0]) (sh @ [k]) (data ?b)"
    unfolding expand_to_def using d by (simp add: map_rows_def pad_shape_def)
  also have "\<dots> = concat (map (replicate k) (map e (rows d)))"
    unfolding db using d by (intro expand_last1) (simp add: length_rows)
  finally have eb: "expand_to (sh @ [k]) ?b = concat (map (\<lambda>r. replicate k (e r)) (rows d))"
    by (simp add: comp_def)
  have "map2 f (concat (map A (rows d))) (concat (map (\<lambda>r. replicate k (e r)) (rows d)))
        = concat (map (\<lambda>r. map2 f (A r) (replicate k (e r))) (rows d))"
    using A by (intro map2_concat) simp
  moreover have "\<forall>r \<in> set (rows d). map2 f (A r) (replicate k (e r)) = map (\<lambda>x. f x (e r)) (A r)"
    using A by (auto simp: zip_replicate2 map_zip_map2 intro!: nth_equalityI)
  ultimately show ?thesis
    using d ea eb
    by (simp add: binop_def map_rows_def broadcast_shapes_last1 cong: map_cong)
qed


lemma tmap_of_map_rows: "tmap f (map_rows g n t) = map_rows (\<lambda>r. map f (g r)) n t"
  by (simp add: tmap_def map_rows_def map_concat comp_def)

lemma Translation_decode_plain:
  assumes sh: "shape mv = sh @ [16]"
  shows "Translation_decode mv False thr
         = Inr (map_rows (\<lambda>r. map (\<lambda>x. - 2.0 * x) (take 3 (drop 5 r))) 3 mv)"
proof -
  have s: "slice_last 5 8 mv = Inr (map_rows (\<lambda>r. take 3 (drop 5 r)) 3 mv)"
    using slice_last_map_rows [OF sh, of 5 8] by simp
  show ?thesis
    unfolding Translation_decode_def s and_then_def sum.case Let_def tmap_of_map_rows
      if_False ..
qed

lemma Translation_decode_divide:
  assumes sh: "shape mv = sh @ [16]" and wf: "wf mv"
  shows "Translation_decode mv True thr
         = Inr (map_rows (\<lambda>r. map (\<lambda>x. - 2.0 * x / (if thr < \<bar>r ! 0\<bar> then r ! 0 else thr))
                               (take 3 (drop 5 r))) 3 mv)"
proof -
  let ?A = "\<lambda>r::real list. map (\<lambda>x. - 2.0 * x) (take 3 (drop 5 r))"
  let ?E = "\<lambda>r::real list. if thr < \<bar>r ! 0\<bar> then r ! 0 else thr"
  have len: "\<forall>r \<in> set (rows mv). length r = 16"
    using row_length [OF sh wf] by blast
  have s: "slice_last 5 8 mv = Inr (map_rows (\<lambda>r. take 3 (drop 5 r)) 3 mv)"
    using slice_last_map_rows [OF sh, of 5 8] by simp
  have l: "select_list [0] mv = Inr (map_rows (\<lambda>r. [r ! 0]) 1 mv)"
    using select_list_map_rows [OF sh, of "[0]"] by simp
  have c: "tmap (\<lambda>x. thr < \<bar>x\<bar>) (map_rows (\<lambda>r. [r ! 0]) 1 mv)
           = map_rows (\<lambda>r. [thr < \<bar>r ! 0\<bar>]) 1 mv"
    by (simp add: tmap_of_map_rows)
  have w: "binop (\<lambda>c x. if c then x else thr) (map_rows (\<lambda>r. [thr < \<bar>r ! 0\<bar>]) 1 mv)
             (map_rows (\<lambda>r. [r ! 0]) 1 mv)
           = Inr (map_rows (\<lambda>r. [?E r]) 1 mv)"
    using binop_same_rows [OF sh, of "\<lambda>r. [thr < \<bar>r ! 0\<bar>]" 1 "\<lambda>r. [r ! 0]"
        "\<lambda>c x. if c then x else thr"]
    by simp
  have q: "binop (\<lambda>x y. x / y) (map_rows ?A 3 mv) (map_rows (\<lambda>r. [?E r]) 1 mv)
           = Inr (map_rows (\<lambda>r. map (\<lambda>x. x / ?E r) (?A r)) 3 mv)"
    using len by (intro binop_bcast_rows [OF sh]) simp
  have m: "tmap (\<lambda>x. - 2.0 * x) (map_rows (\<lambda>r. take 3 (drop 5 r)) 3 mv) = map_rows ?A 3 mv"
    by (rule tmap_of_map_rows)
  have e: "(\<lambda>r. map (\<lambda>x. x / ?E r) (?A r))
           = (\<lambda>r. map (\<lambda>x. - 2.0 * x / ?E r) (take 3 (drop 5 r)))"
    by (simp add: comp_def)
  show ?thesis
    unfolding Translation_decode_def s and_then_def sum.case Let_def if_True l c w m q e ..
qed

lemma map_rows_props:
  assumes "shape t = sh @ [n]" and "\<forall>r \<in> set (rows t). length (g r) = n'"
  shows "shape (map_rows g n' t) = sh @ [n'] \<and> wf (map_rows g n' t)
         \<and> rows (map_rows g n' t) = map g (rows t)"
  using assms by (simp add: shape_map_rows wf_map_rows rows_map_rows)


lemma length_expand:
  "list_all2 (\<lambda>s t. s = t \<or> s = 1) sh tg \<Longrightarrow> length xs = prod_list sh \<Longrightarrow>
   length (expand sh tg xs) = prod_list tg"
proof (induction sh tg arbitrary: xs rule: list_all2_induct)
  case Nil
  then show ?case by simp
next
  case (Cons s sh t tg)
  show ?case
  proof (cases "s = t")
    case True
    have "\<forall>b \<in> set (blocks s (prod_list sh) xs). length (expand sh tg b) = prod_list tg"
      using Cons.prems by (auto intro!: Cons.IH blocks_row_length [of s "prod_list sh" xs])
    then have "length (concat (map (expand sh tg) (blocks s (prod_list sh) xs)))
               = length (map (expand sh tg) (blocks s (prod_list sh) xs)) * prod_list tg"
      by (intro length_concat_uniform) simp
    with True show ?thesis by simp
  next
    case False
    with Cons.hyps have "s = 1" by simp
    with Cons.prems have "length (expand sh tg xs) = prod_list tg"
      by (intro Cons.IH) simp
    with False show ?thesis
      by (simp add: length_concat sum_list_replicate)
  qed
qed

lemma list_all2_replicate_1:
  "length xs = n \<Longrightarrow> list_all2 (\<lambda>s t. s = t \<or> s = 1) (replicate n (1::nat)) xs"
  by (induction xs arbitrary: n) auto

lemma bshape_expandable:
  "bshape a b = Some a \<Longrightarrow> length b \<le> length a \<Longrightarrow>
   list_all2 (\<lambda>s t. s = t \<or> s = 1) (b @ replicate (length a - length b) 1) a"
proof (induction a b rule: bshape.induct)
  case (1 ys)
  then show ?case by simp
next
  case (2 x xs)
  have "list_all2 (\<lambda>s t. s = t \<or> s = 1) (replicate (length (x # xs)) 1) (x # xs)"
    by (rule list_all2_replicate_1) simp
  then show ?case by simp
next
  case (3 x xs y ys)
  then show ?case
    by (auto split: if_splits)
qed

lemma pad_shape_expandable:
  assumes "broadcast_shapes dst sh = Some dst" and "length sh \<le> length dst"
  shows "list_all2 (\<lambda>s t. s = t \<or> s = 1) (pad_shape (length dst) sh) dst"
proof -
  from assms(1) have "bshape (rev dst) (rev sh) = Some (rev dst)"
    by (auto simp: broadcast_shapes_def)
  with assms(2)
  have "list_all2 (\<lambda>s t. s = t \<or> s = 1)
          (rev sh @ replicate (length (rev dst) - length (rev sh)) 1) (rev dst)"
    by (intro bshape_expandable) simp_all
  then have "list_all2 (\<lambda>s t. s = t \<or> s = 1)
          (rev (rev sh @ replicate (length dst - length sh) 1)) (rev (rev dst))"
    unfolding list_all2_rev by simp
  then show ?thesis
    by (simp add: pad_shape_def)
qed

lemma prod_list_dropWhile_1: "prod_list (dropWhile (\<lambda>n. n = 1) sh) = prod_list (sh :: nat list)"
  by (induction sh) simp_all

lemma prod_list_pad_shape: "prod_list (pad_shape n sh) = prod_list sh"
  by (simp add: pad_shape_def)

lemma length_setitem_value:
  assumes "wf v" and "setitem_value dst v = Inr xs"
  shows "length xs = prod_list dst"
proof (cases "shape v = dst")
  case True
  with assms show ?thesis
    by (simp add: setitem_value_def wf_def)
next
  case ne: False
  show ?thesis
  proof (cases "shape v = []")
    case True
    with ne assms(2) show ?thesis
      by (auto simp: setitem_value_def split: list.splits)
  next
    case False
    let ?sh = "dropWhile (\<lambda>n. n = 1) (shape v)"
    from ne False assms(2)
    have ok: "length ?sh \<le> length dst" "broadcast_shapes dst ?sh = Some dst"
      and xs: "xs = expand (pad_shape (length dst) ?sh) dst (data v)"
      by (auto simp: setitem_value_def Let_def split: if_splits)
    have "list_all2 (\<lambda>s t. s = t \<or> s = 1) (pad_shape (length dst) ?sh) dst"
      using ok(2,1) by (rule pad_shape_expandable)
    moreover have "length (data v) = prod_list (pad_shape (length dst) ?sh)"
      using assms(1) unfolding wf_def prod_list_pad_shape prod_list_dropWhile_1 .
    ultimately show ?thesis
      unfolding xs by (rule length_expand)
  qed
qed


lemma Plane_encode_scalar_rows:
  assumes sh: "shape n = sh @ [3]" and wf: "wf n" and d: "tdim d = 1"
    and vs: "setitem_value sh d = Inr vs"
  shows "Plane_encode gp dt dt n d = Inr (Tensor (sh @ [16])
           (concat (map2 (\<lambda>r x. [0, x, r ! 0, r ! 1, r ! 2, 0, 0, 0, 0, 0, 0, 0, 0, 0, 0, 0])
              (rows n) vs)))"
proof -
  let ?Z = "\<lambda>r::real list. replicate 16 (0::real)"
  let ?G = "\<lambda>r::real list. take 2 (?Z r) @ r @ drop 5 (?Z r)"
  let ?H = "\<lambda>(r::real list) x::real. [0, x, r ! 0, r ! 1, r ! 2, 0, 0, 0, 0, 0, 0, 0, 0, 0, 0, 0]"
  have len3: "\<forall>r \<in> set (rows n). length r = 3"
    using row_length [OF sh wf] by blast
  have z: "zeros (butlast (shape n) @ [16]) = map_rows ?Z 16 n"
    using sh by (rule zeros_map_rows)
  have "set_slice 2 5 (map_rows (\<lambda>r. r) (5 - 2) n) (map_rows ?Z 16 n) = Inr (map_rows ?G 16 n)"
    using sh len3 by (intro set_slice_map_rows) simp_all
  then have ss: "set_slice 2 5 n (map_rows ?Z 16 n) = Inr (map_rows ?G 16 n)"
    using map_rows_id [OF sh wf] by simp
  have sg: "shape (map_rows ?G 16 n) = sh @ [16]"
    using sh by (rule shape_map_rows)
  have rg: "rows (map_rows ?G 16 n) = map ?G (rows n)"
    using sh len3 by (intro rows_map_rows) simp_all
  have "map2 (\<lambda>r x. r[1 := x]) (map ?G (rows n)) vs = map2 ?H (rows n) vs"
  proof -
    have "\<forall>p \<in> set (zip (rows n) vs). (case p of (r, x) \<Rightarrow> (?G r)[1 := x]) = (case p of (r, x) \<Rightarrow> ?H r x)"
    proof
      fix p assume p: "p \<in> set (zip (rows n) vs)"
      obtain r x where rx: "p = (r, x)" by (cases p)
      with p have "r \<in> set (rows n)" by (auto dest: set_zip_leftD)
      with len3 obtain a b c where "r = [a, b, c]"
        using list3 by blast
      with rx show "(case p of (r, x) \<Rightarrow> (?G r)[1 := x]) = (case p of (r, x) \<Rightarrow> ?H r x)"
        by (simp add: numeral_eq_Suc)
    qed
    then show ?thesis
      by (simp add: zip_map1 split_def cong: map_cong)
  qed
  then have sl: "set_last 1 d (map_rows ?G 16 n)
             = Inr (Tensor (sh @ [16]) (concat (map2 ?H (rows n) vs)))"
    using sg rg vs by (simp add: set_last_def and_then_def)
  have c: "setitem_cast dt dt d = d"
    by (simp add: setitem_cast_def)
  show ?thesis
    unfolding Plane_encode_def Let_def z slice_all_ok [OF sh] and_then_def sum.case ss d
      if_True c sl by simp
qed

subsection \<open>The channel axis\<close>

lemma mats_eq: "shape t = lead @ [c, m] \<Longrightarrow> mats t = blocks (prod_list lead) (c * m) (data t)"
  by (simp add: mats_def butlast_append)

lemma length_mats: "shape t = lead @ [c, m] \<Longrightarrow> length (mats t) = prod_list lead"
  by (simp add: mats_eq)

lemma mat_length:
  "shape t = lead @ [c, m] \<Longrightarrow> wf t \<Longrightarrow> b \<in> set (mats t) \<Longrightarrow> length b = c * m"
  by (rule blocks_row_length [of "prod_list lead" "c * m" "data t"]) (simp_all add: mats_eq wf_def)


lemma shape_narrow2: "shape t = lead @ [c, m] \<Longrightarrow> shape (narrow2 start len t) = lead @ [len, m]"
  by (simp add: narrow2_def butlast_append)

lemma narrow2_mats:
  assumes sh: "shape t = lead @ [c, m]" and wf: "wf t" and le: "start + len \<le> c"
  shows "wf (narrow2 start len t)"
    and "mats (narrow2 start len t) = map (\<lambda>b. take (len * m) (drop (start * m) b)) (mats t)"
proof -
  let ?g = "\<lambda>b::'a list. take (len * m) (drop (start * m) b)"
  have "(start + len) * m \<le> c * m"
    using le by (rule mult_le_mono1)
  then have l: "\<forall>b \<in> set (map ?g (mats t)). length b = len * m"
    using mat_length [OF sh wf] by (auto simp: add_mult_distrib)
  have d: "data (narrow2 start len t) = concat (map ?g (mats t))"
    using sh by (simp add: narrow2_def)
  have "length (concat (map ?g (mats t))) = length (map ?g (mats t)) * (len * m)"
    using l by (rule length_concat_uniform)
  then show "wf (narrow2 start len t)"
    using sh d by (simp add: wf_def shape_narrow2 [OF sh] length_mats)
  have "blocks (length (map ?g (mats t))) (len * m) (concat (map ?g (mats t))) = map ?g (mats t)"
    using l by (rule blocks_concat)
  then show "mats (narrow2 start len t) = map ?g (mats t)"
    using sh d by (simp add: mats_eq [OF shape_narrow2 [OF sh]] length_mats)
qed

lemma upt_4: "[0..<4] = [0, 1, 2, 3]"
  by (simp add: upt_rec)

lemma split2_four:
  assumes sh: "shape y = lead @ [4 * h, m]" and h: "0 < h"
  shows "split2 (int h) y
         = Inr [narrow2 0 h y, narrow2 h h y, narrow2 (2 * h) h y, narrow2 (3 * h) h y]"
proof -
  have "(4 * h + h - 1) div h = 4"
  proof -
    have "4 * h + h - 1 = 4 * h + (h - 1)" using h by simp
    moreover have "(4 * h + (h - 1)) div h = 4 + (h - 1) div h"
      using h by (simp only: div_mult_self3) 
    moreover have "(h - 1) div h = 0" using h by simp
    ultimately show ?thesis by simp
  qed
  then have n: "max ((4 * h + h - 1) div h) 1 = 4" by simp
  have c: "last (butlast (shape y)) = 4 * h"
    using sh by (simp add: butlast_append)
  have d: "tdim y \<noteq> 0" "\<not> tdim y < 2"
    using sh by (simp_all add: tdim_def)
  show ?thesis
    using h d unfolding split2_def Let_def c nat_int n upt_4
    by simp
qed

lemma two_axes_not_single: "lead @ [c, m] \<noteq> [z]"
  by (cases lead) simp_all

lemma cat2_two_axes:
  assumes a: "shape a = lead @ [ca, m]" and b: "shape b = lead @ [cb, m]"
  shows "cat2 a b = Inr (Tensor (lead @ [ca + cb, m]) (concat (map2 (@) (mats a) (mats b))))"
  using a b by (simp add: cat2_def tdim_def butlast_append two_axes_not_single)

lemma cat2_mats:
  assumes a: "shape a = lead @ [ca, m]" and b: "shape b = lead @ [cb, m]"
    and wa: "wf a" and wb: "wf b"
  shows "\<exists>c. cat2 a b = Inr c \<and> shape c = lead @ [ca + cb, m] \<and> wf c
             \<and> data c = concat (map2 (@) (mats a) (mats b))"
proof -
  let ?R = "map2 (@) (mats a) (mats b)"
  let ?c = "Tensor (lead @ [ca + cb, m]) (concat ?R)"
  have eq: "cat2 a b = Inr ?c"
    using a b by (rule cat2_two_axes)
  have "\<forall>r \<in> set ?R. length r = (ca + cb) * m"
  proof
    fix r assume "r \<in> set ?R"
    then obtain x y where r: "r = x @ y" and xy: "(x, y) \<in> set (zip (mats a) (mats b))"
      by auto
    from xy have "x \<in> set (mats a)" and "y \<in> set (mats b)"
      by (auto dest: set_zip_leftD set_zip_rightD)
    then show "length r = (ca + cb) * m"
      using mat_length [OF a wa] mat_length [OF b wb] r by (simp add: add_mult_distrib)
  qed
  then have "length (concat ?R) = length ?R * ((ca + cb) * m)"
    by (rule length_concat_uniform)
  then have "wf ?c"
    using a b by (simp add: wf_def length_mats)
  with eq show ?thesis by simp
qed



lemma Bilinear_forward_steps:
  assumes sci: "size_channels_intermediate (bil_config self) = 2 * int h" and h: "0 < h"
    and pb: "bil_proj_bil self x = Inr y" and sy: "shape y = lead @ [4 * h, m]"
  shows "Bilinear_forward gp join self x reference =
           and_then (gp (narrow2 0 h y) (narrow2 h h y)) (\<lambda>g.
           and_then (join (narrow2 (2 * h) h y) (narrow2 (3 * h) h y) reference) (\<lambda>j.
           and_then (cat2 g j) (bil_proj_out self)))"
proof -
  have d: "2 * int h div 2 = int h" by simp
  show ?thesis
    unfolding Bilinear_forward_def Let_def sci d pb and_then_def sum.case
      split2_four [OF sy h] unpack4_def list.case prod.case ..
qed

lemma chunk_props:
  assumes wy: "wf y" and sy: "shape y = lead @ [4 * h, m]"
  shows "\<forall>c \<in> set [narrow2 0 h y, narrow2 h h y, narrow2 (2 * h) h y, narrow2 (3 * h) h y].
           wf c \<and> shape c = lead @ [h, m]"
  using narrow2_mats(1) [OF sy wy, of 0 h] narrow2_mats(1) [OF sy wy, of h h]
    narrow2_mats(1) [OF sy wy, of "2 * h" h] narrow2_mats(1) [OF sy wy, of "3 * h" h]
    shape_narrow2 [OF sy]
  by simp


lemma cat2_channels:
  assumes "wf g" and "wf j" and "shape g = lead @ [h, m]" and "shape j = lead @ [h, m]"
  shows "\<exists>c. cat2 g j = Inr c \<and> wf c \<and> shape c = lead @ [2 * h, m]"
  using cat2_mats [OF assms(3,4,1,2)] by auto

subsection \<open>Construction and channel counts of the layers\<close>

lemma wf_zeros: "wf (zeros sh)"
  by (simp add: wf_def zeros_def)

lemma shape_zeros: "shape (zeros sh) = sh"
  by (simp add: zeros_def)

lemma zero_linear_channel_map:
  "zero_linear a b = Inr f \<Longrightarrow> channel_map lead (nat a) (nat b) f"
  by (auto simp: channel_map_def zero_linear_def tdim_def butlast_append wf_zeros shape_zeros)

lemma Bilinear_init_odd:
  "size_channels_intermediate cfg mod 2 \<noteq> 0 \<Longrightarrow> Bilinear_init EL cfg = Inl ValueError"
  by (simp add: Bilinear_init_def)

lemma Bilinear_init_even:
  "size_channels_intermediate cfg mod 2 = 0 \<Longrightarrow>
   EL (size_channels_hidden cfg) (size_channels_intermediate cfg * 2) = Inr pb \<Longrightarrow>
   EL (size_channels_intermediate cfg) (size_channels_hidden cfg) = Inr po \<Longrightarrow>
   Bilinear_init EL cfg = Inr \<lparr>bil_config = cfg, bil_proj_bil = pb, bil_proj_out = po\<rparr>"
  by (simp add: Bilinear_init_def and_then_def)

lemma Bilinear_init_Inr:
  assumes "Bilinear_init EL cfg = Inr self"
  shows "size_channels_intermediate cfg mod 2 = 0 \<and> bil_config self = cfg \<and>
         EL (size_channels_hidden cfg) (size_channels_intermediate cfg * 2) = Inr (bil_proj_bil self) \<and>
         EL (size_channels_intermediate cfg) (size_channels_hidden cfg) = Inr (bil_proj_out self)"
  using assms
  by (auto simp: Bilinear_init_def and_then_def split: if_splits sum.splits)

lemma channel_mapD:
  "channel_map lead ci co f \<Longrightarrow> wf t \<Longrightarrow> shape t = lead @ [ci, 16] \<Longrightarrow>
   \<exists>u. f t = Inr u \<and> wf u \<and> shape u = lead @ [co, 16]"
  unfolding channel_map_def by blast

lemma product_contractD:
  "product_contract lead c gp \<Longrightarrow> wf a \<Longrightarrow> wf b \<Longrightarrow> shape a = lead @ [c, 16] \<Longrightarrow>
   shape b = lead @ [c, 16] \<Longrightarrow> \<exists>u. gp a b = Inr u \<and> wf u \<and> shape u = lead @ [c, 16]"
  unfolding product_contract_def by blast

lemma join_contractD:
  "join_contract lead c r join \<Longrightarrow> wf a \<Longrightarrow> wf b \<Longrightarrow> shape a = lead @ [c, 16] \<Longrightarrow>
   shape b = lead @ [c, 16] \<Longrightarrow> \<exists>u. join a b r = Inr u \<and> wf u \<and> shape u = lead @ [c, 16]"
  unfolding join_contract_def by blast

lemma Bilinear_forward_channels:
  assumes init: "Bilinear_init EL cfg = Inr self"
    and pos: "0 < size_channels_intermediate cfg"
    and wx: "wf x" and sx: "shape x = lead @ [c, 16]"
    and pbc: "channel_map lead c (nat (size_channels_intermediate cfg * 2)) (bil_proj_bil self)"
    and poc: "channel_map lead (nat (size_channels_intermediate cfg)) c (bil_proj_out self)"
    and gp: "product_contract lead (nat (size_channels_intermediate cfg div 2)) gp"
    and join: "join_contract lead (nat (size_channels_intermediate cfg div 2)) reference join"
  shows "\<exists>y. Bilinear_forward gp join self x reference = Inr y \<and> wf y \<and>
             shape y = lead @ [c, 16]"
proof -
  let ?sci = "size_channels_intermediate cfg"
  define h where "h = nat (?sci div 2)"
  from Bilinear_init_Inr [OF init]
  have even: "?sci mod 2 = 0" and cfg: "bil_config self = cfg"
    by simp_all
  have "0 \<le> ?sci div 2"
    using pos by simp
  then have "int h = ?sci div 2"
    by (simp add: h_def)
  with even have sci: "?sci = 2 * int h"
    by presburger
  with pos have h: "0 < h"
    by simp
  have n4: "nat (?sci * 2) = 4 * h" and n2: "nat ?sci = 2 * h"
    using sci by simp_all
  have "channel_map lead c (4 * h) (bil_proj_bil self)"
    using pbc unfolding n4 .
  from channel_mapD [OF this wx sx]
  obtain y where y: "bil_proj_bil self x = Inr y" "wf y" "shape y = lead @ [4 * h, 16]"
    by blast
  have out: "channel_map lead (2 * h) c (bil_proj_out self)"
    using poc unfolding n2 .
  have gp': "product_contract lead h gp" and join': "join_contract lead h reference join"
    using gp join unfolding h_def .
  have ch: "\<forall>c \<in> set [narrow2 0 h y, narrow2 h h y, narrow2 (2 * h) h y, narrow2 (3 * h) h y].
              wf c \<and> shape c = lead @ [h, 16]"
    using y(2,3) by (rule chunk_props)
  from ch have c0: "wf (narrow2 0 h y)" "shape (narrow2 0 h y) = lead @ [h, 16]"
    and c1: "wf (narrow2 h h y)" "shape (narrow2 h h y) = lead @ [h, 16]"
    and c2: "wf (narrow2 (2 * h) h y)" "shape (narrow2 (2 * h) h y) = lead @ [h, 16]"
    and c3: "wf (narrow2 (3 * h) h y)" "shape (narrow2 (3 * h) h y) = lead @ [h, 16]"
    by simp_all
  from product_contractD [OF gp' c0(1) c1(1) c0(2) c1(2)]
  obtain g where g: "gp (narrow2 0 h y) (narrow2 h h y) = Inr g" "wf g" "shape g = lead @ [h, 16]"
    by blast
  from join_contractD [OF join' c2(1) c3(1) c2(2) c3(2)]
  obtain j where j: "join (narrow2 (2 * h) h y) (narrow2 (3 * h) h y) reference = Inr j"
      "wf j" "shape j = lead @ [h, 16]"
    by blast
  obtain d where d: "cat2 g j = Inr d" "wf d" "shape d = lead @ [2 * h, 16]"
    using cat2_channels [OF g(2) j(2) g(3) j(3)] by blast
  from channel_mapD [OF out d(2,3)]
  obtain u where u: "bil_proj_out self d = Inr u" "wf u" "shape u = lead @ [c, 16]"
    by blast
  have s: "size_channels_intermediate (bil_config self) = 2 * int h"
    using sci cfg by simp
  have "Bilinear_forward gp join self x reference = Inr u"
    unfolding Bilinear_forward_steps [OF s h y(1,3)] g(1) j(1) d(1) u(1) and_then_def sum.case ..
  with u show ?thesis by simp
qed

lemma binop_same_shape:
  assumes "wf a" and "wf b" and "shape a = shape b"
  shows "binop f a b = Inr (Tensor (shape a) (map2 f (data a) (data b)))"
  using assms
  by (simp add: binop_def broadcast_shapes_same expand_to_def pad_shape_same expand_same wf_def)

lemma map2_add_zeros: "length xs = n \<Longrightarrow> map2 (+) (replicate n (0::real)) xs = xs"
  by (induction xs arbitrary: n) auto

section \<open>The codec claims\<close>

text \<open>
  In the statements below a tensor \<open>t\<close> with \<open>wf t\<close> and \<open>shape t = sh @ [n]\<close> is a batch
  of \<open>prod_list sh\<close> vectors of \<open>n\<close> components, \<open>rows t\<close> in order; \<open>sh = []\<close> is a single
  vector.
\<close>

text \<open>
  C6, as the code has it: for every tensor \<open>t\<close> of 3-vectors of a floating dtype,
  \<open>Translation.encode(t)\<close> returns a tensor of multivectors of 16 components, one for
  each vector of \<open>t\<close>, with component 0 equal to 1, components 5, 6, 7 equal to the
  product \<open>-0.5 * t\<close> of that dtype, and all other components 0; the product is \<open>-0.5\<close>
  times the vector wherever the halves of the components of \<open>t\<close> are values of the dtype.
\<close>

theorem Translation_encode_components:
  assumes "wf t" and "shape t = sh @ [3]"
  shows "\<exists>m. Translation_encode (Floating p e) t = Inr m \<and> shape m = sh @ [16] \<and> wf m \<and>
           rows m = map (\<lambda>r. [1, 0, 0, 0, 0, round_to p e (- 0.5 * r ! 0),
                               round_to p e (- 0.5 * r ! 1), round_to p e (- 0.5 * r ! 2),
                               0, 0, 0, 0, 0, 0, 0, 0]) (rows t) \<and>
           ((\<forall>x \<in> set (data t). round_to p e (- 0.5 * x) = - 0.5 * x) \<longrightarrow>
            rows m = map (\<lambda>r. [1, 0, 0, 0, 0, - 0.5 * r ! 0, - 0.5 * r ! 1, - 0.5 * r ! 2,
                                0, 0, 0, 0, 0, 0, 0, 0]) (rows t))"
proof -
  let ?R = "\<lambda>r::real list. [1, 0, 0, 0, 0, round_to p e (- 0.5 * r ! 0),
              round_to p e (- 0.5 * r ! 1), round_to p e (- 0.5 * r ! 2),
              0, 0, 0, 0, 0, 0, 0, 0]"
  let ?T = "\<lambda>r::real list. [1, 0, 0, 0, 0, - 0.5 * r ! 0, - 0.5 * r ! 1, - 0.5 * r ! 2,
              0, 0, 0, 0, 0, 0, 0, 0]"
  have enc: "Translation_encode (Floating p e) t = Inr (map_rows ?R 16 t)"
    by (rule Translation_encode_Floating_rows [OF assms(2,1)])
  have props: "shape (map_rows ?R 16 t) = sh @ [16] \<and> wf (map_rows ?R 16 t)
               \<and> rows (map_rows ?R 16 t) = map ?R (rows t)"
    by (rule map_rows_props [OF assms(2)]) simp
  have "rows (map_rows ?R 16 t) = map ?T (rows t)"
    if ex: "\<forall>x \<in> set (data t). round_to p e (- 0.5 * x) = - 0.5 * x"
  proof -
    have "Translation_encode (Floating p e) t = Inr (map_rows ?T 16 t)"
      by (rule Translation_encode_exact_rows [OF assms(2,1) ex])
    with enc have "map_rows ?R 16 t = map_rows ?T 16 t"
      by simp
    moreover have "rows (map_rows ?T 16 t) = map ?T (rows t)"
      by (rule rows_map_rows [OF assms(2)]) simp
    ultimately show ?thesis by simp
  qed
  with enc props show ?thesis
    by (intro exI [of _ "map_rows ?R 16 t"]) simp
qed

theorem Translation_encode_components_witness:
  "wf (Tensor [2, 3] [1, 2, 3, 4, 5, 6 :: real]) \<and>
   shape (Tensor [2, 3] [1, 2, 3, 4, 5, 6 :: real]) = [2] @ [3] \<and>
   list_all (\<lambda>x. round_to 24 127 (- 0.5 * x) = - 0.5 * x)
     (data (Tensor [2, 3] [1, 2, 3, 4, 5, 6 :: real])) \<and>
   (\<exists>m. Translation_encode float32 (Tensor [2, 3] [1, 2, 3, 4, 5, 6]) = Inr m \<and>
        shape m = [2, 16] \<and>
        rows m = [[1, 0, 0, 0, 0, - 1 / 2, - 1, - 3 / 2, 0, 0, 0, 0, 0, 0, 0, 0],
                  [1, 0, 0, 0, 0, - 2, - 5 / 2, - 3, 0, 0, 0, 0, 0, 0, 0, 0]])"
proof -
  let ?t = "Tensor [2, 3] [1, 2, 3, 4, 5, 6 :: real]"
  have w: "wf ?t" and s: "shape ?t = [2] @ [3]"
    by (simp_all add: wf_def)
  have x: "\<forall>x \<in> set (data ?t). round_to 24 127 (- 0.5 * x) = - 0.5 * x"
    by code_simp
  have la: "list_all (\<lambda>x. round_to 24 127 (- 0.5 * x) = - 0.5 * x) (data ?t)"
    unfolding list_all_iff using x .
  have r: "rows ?t = [[1, 2, 3], [4, 5, 6]]"
    by code_simp
  from Translation_encode_components [OF w s, of 24 127]
  obtain m where m: "Translation_encode (Floating 24 127) ?t = Inr m" "shape m = [2] @ [16]"
    and ex: "(\<forall>x \<in> set (data ?t). round_to 24 127 (- 0.5 * x) = - 0.5 * x) \<longrightarrow>
            rows m = map (\<lambda>r. [1, 0, 0, 0, 0, - 0.5 * r ! 0, - 0.5 * r ! 1, - 0.5 * r ! 2,
                                0, 0, 0, 0, 0, 0, 0, 0]) (rows ?t)"
    by blast
  from ex x have "rows m = map (\<lambda>r. [1, 0, 0, 0, 0, - 0.5 * r ! 0, - 0.5 * r ! 1, - 0.5 * r ! 2,
                                0, 0, 0, 0, 0, 0, 0, 0]) (rows ?t)"
    by blast
  then have "rows m = [[1, 0, 0, 0, 0, - 1 / 2, - 1, - 3 / 2, 0, 0, 0, 0, 0, 0, 0, 0],
                       [1, 0, 0, 0, 0, - 2, - 5 / 2, - 3, 0, 0, 0, 0, 0, 0, 0, 0]]"
    unfolding r by simp
  with w s la m show ?thesis
    unfolding float32_def by auto
qed

text \<open>
  The claim as the specification states it, for every tensor of 3-vectors, is false
  of an integer tensor: \<open>mvs\<close> takes the dtype of \<open>t\<close>, and the assignment truncates the
  halves. For the \<open>int64\<close> vector \<open>(1, 2, 3)\<close> the components 5, 6, 7 are \<open>0, -1, -1\<close>, not
  \<open>-0.5, -1, -1.5\<close>.
\<close>

theorem Translation_encode_int64:
  "Translation_encode Int64 (Tensor [3] [1, 2, 3])
     = Inr (Tensor [16] [1, 0, 0, 0, 0, 0, - 1, - 1, 0, 0, 0, 0, 0, 0, 0, 0]) \<and>
   Translation_encode Int64 (Tensor [3] [1, 2, 3])
     \<noteq> Inr (Tensor [16] [1, 0, 0, 0, 0, - 0.5 * 1, - 0.5 * 2, - 0.5 * 3,
                         0, 0, 0, 0, 0, 0, 0, 0])"
proof -
  have "Translation_encode Int64 (Tensor [3] [1, 2, 3])
     = Inr (Tensor [16] [1, 0, 0, 0, 0, 0, - 1, - 1, 0, 0, 0, 0, 0, 0, 0, 0])"
    by code_simp
  then show ?thesis by simp
qed

text \<open>
  C5, as the code has it: for every tensor \<open>t\<close> of 3-vectors of a floating dtype in which
  the halves of the components of \<open>t\<close> are values of the dtype (the halving does not
  underflow), \<open>Translation.decode(Translation.encode(t))\<close>, with
  \<open>divide_by_embedding_dim\<close> at its default \<open>False\<close> and the threshold at its default,
  returns \<open>t\<close>.
\<close>

theorem Translation_roundtrip:
  assumes "wf t" and "shape t = sh @ [3]"
    and "\<forall>x \<in> set (data t). round_to p e (- 0.5 * x) = - 0.5 * x"
  shows "\<exists>m. Translation_encode (Floating p e) t = Inr m \<and>
             Translation_decode m False default_threshold = Inr t"
proof -
  let ?T = "\<lambda>r::real list. [1, 0, 0, 0, 0, - 0.5 * r ! 0, - 0.5 * r ! 1, - 0.5 * r ! 2,
                            0, 0, 0, 0, 0, 0, 0, 0]"
  let ?D = "\<lambda>r::real list. map (\<lambda>x. - 2.0 * x) (take 3 (drop 5 r))"
  have len3: "\<forall>r \<in> set (rows t). length r = 3"
    using row_length [OF assms(2,1)] by blast
  have enc: "Translation_encode (Floating p e) t = Inr (map_rows ?T 16 t)"
    by (rule Translation_encode_exact_rows [OF assms(2,1,3)])
  have sm: "shape (map_rows ?T 16 t) = sh @ [16]"
    using assms(2) by (rule shape_map_rows)
  have "Translation_decode (map_rows ?T 16 t) False default_threshold
        = Inr (map_rows ?D 3 (map_rows ?T 16 t))"
    using sm by (rule Translation_decode_plain)
  also have "map_rows ?D 3 (map_rows ?T 16 t) = map_rows (\<lambda>r. ?D (?T r)) 3 t"
    using assms(2) by (intro map_rows_map_rows) simp_all
  also have "\<dots> = map_rows (\<lambda>r. r) 3 t"
  proof (rule map_rows_cong, rule ballI)
    fix r assume "r \<in> set (rows t)"
    with len3 obtain x y z where "r = [x, y, z]"
      using list3 by blast
    then show "?D (?T r) = r" by simp
  qed
  also have "\<dots> = t"
    using assms(2,1) by (rule map_rows_id)
  finally show ?thesis
    using enc by simp
qed

theorem Translation_roundtrip_witness:
  "wf (Tensor [2, 3] [1, 2, 3, 4, 5, 6 :: real]) \<and>
   shape (Tensor [2, 3] [1, 2, 3, 4, 5, 6 :: real]) = [2] @ [3] \<and>
   list_all (\<lambda>x. round_to 24 127 (- 0.5 * x) = - 0.5 * x)
     (data (Tensor [2, 3] [1, 2, 3, 4, 5, 6 :: real])) \<and>
   (\<exists>m. Translation_encode float32 (Tensor [2, 3] [1, 2, 3, 4, 5, 6]) = Inr m \<and>
        Translation_decode m False default_threshold = Inr (Tensor [2, 3] [1, 2, 3, 4, 5, 6]))"
proof -
  let ?t = "Tensor [2, 3] [1, 2, 3, 4, 5, 6 :: real]"
  have w: "wf ?t" and s: "shape ?t = [2] @ [3]"
    by (simp_all add: wf_def)
  have x: "\<forall>x \<in> set (data ?t). round_to 24 127 (- 0.5 * x) = - 0.5 * x"
    by code_simp
  have la: "list_all (\<lambda>x. round_to 24 127 (- 0.5 * x) = - 0.5 * x) (data ?t)"
    unfolding list_all_iff using x .
  show ?thesis
    using Translation_roundtrip [OF w s x] w s la unfolding float32_def by simp
qed

text \<open>
  The claim as the specification states it, for every tensor of 3-vectors, is false
  of the \<open>int64\<close> vector \<open>(1, 2, 3)\<close>, encoded with the components \<open>0, -1, -1\<close> and decoded
  to \<open>(0, 2, 2)\<close>, and of the \<open>float32\<close> vector \<open>(2 ^ -149, 0, 0)\<close>, whose first component
  is the smallest positive value of the dtype: its half rounds to 0, and it is decoded
  to 0.
\<close>

theorem Translation_roundtrip_fails:
  "and_then (Translation_encode Int64 (Tensor [3] [1, 2, 3]))
     (\<lambda>m. Translation_decode m False default_threshold) = Inr (Tensor [3] [0, 2, 2]) \<and>
   and_then (Translation_encode float32 (Tensor [3] [1 / 2 ^ 149, 0, 0]))
     (\<lambda>m. Translation_decode m False default_threshold) = Inr (Tensor [3] [0, 0, 0])"
  by code_simp

text \<open>
  C10, as the code has it: for the same tensors the round trip also holds with
  \<open>divide_by_embedding_dim=True\<close> and the default threshold: the scalar component of an
  encoded translation is 1, above the threshold, so every component is divided by 1.
\<close>

theorem Translation_divide_roundtrip:
  assumes "wf t" and "shape t = sh @ [3]"
    and "\<forall>x \<in> set (data t). round_to p e (- 0.5 * x) = - 0.5 * x"
  shows "\<exists>m. Translation_encode (Floating p e) t = Inr m \<and>
             Translation_decode m True default_threshold = Inr t"
proof -
  let ?T = "\<lambda>r::real list. [1, 0, 0, 0, 0, - 0.5 * r ! 0, - 0.5 * r ! 1, - 0.5 * r ! 2,
                            0, 0, 0, 0, 0, 0, 0, 0]"
  let ?D = "\<lambda>r::real list. map (\<lambda>x. - 2.0 * x /
               (if default_threshold < \<bar>r ! 0\<bar> then r ! 0 else default_threshold))
               (take 3 (drop 5 r))"
  have len3: "\<forall>r \<in> set (rows t). length r = 3"
    using row_length [OF assms(2,1)] by blast
  have enc: "Translation_encode (Floating p e) t = Inr (map_rows ?T 16 t)"
    by (rule Translation_encode_exact_rows [OF assms(2,1,3)])
  have sm: "shape (map_rows ?T 16 t) = sh @ [16]"
    using assms(2) by (rule shape_map_rows)
  have wm: "wf (map_rows ?T 16 t)"
    using assms(2) by (rule wf_map_rows) simp
  have "Translation_decode (map_rows ?T 16 t) True default_threshold
        = Inr (map_rows ?D 3 (map_rows ?T 16 t))"
    using sm wm by (rule Translation_decode_divide)
  also have "map_rows ?D 3 (map_rows ?T 16 t) = map_rows (\<lambda>r. ?D (?T r)) 3 t"
    using assms(2) by (intro map_rows_map_rows) simp_all
  also have "\<dots> = map_rows (\<lambda>r. r) 3 t"
  proof (rule map_rows_cong, rule ballI)
    fix r assume "r \<in> set (rows t)"
    with len3 obtain x y z where "r = [x, y, z]"
      using list3 by blast
    then show "?D (?T r) = r" by (simp add: default_threshold_def)
  qed
  also have "\<dots> = t"
    using assms(2,1) by (rule map_rows_id)
  finally show ?thesis
    using enc by simp
qed

theorem Translation_divide_roundtrip_witness:
  "wf (Tensor [2, 3] [1, 2, 3, 4, 5, 6 :: real]) \<and>
   shape (Tensor [2, 3] [1, 2, 3, 4, 5, 6 :: real]) = [2] @ [3] \<and>
   list_all (\<lambda>x. round_to 24 127 (- 0.5 * x) = - 0.5 * x)
     (data (Tensor [2, 3] [1, 2, 3, 4, 5, 6 :: real])) \<and>
   (\<exists>m. Translation_encode float32 (Tensor [2, 3] [1, 2, 3, 4, 5, 6]) = Inr m \<and>
        Translation_decode m True default_threshold = Inr (Tensor [2, 3] [1, 2, 3, 4, 5, 6]))"
proof -
  let ?t = "Tensor [2, 3] [1, 2, 3, 4, 5, 6 :: real]"
  have w: "wf ?t" and s: "shape ?t = [2] @ [3]"
    by (simp_all add: wf_def)
  have x: "\<forall>x \<in> set (data ?t). round_to 24 127 (- 0.5 * x) = - 0.5 * x"
    by code_simp
  have la: "list_all (\<lambda>x. round_to 24 127 (- 0.5 * x) = - 0.5 * x) (data ?t)"
    unfolding list_all_iff using x .
  show ?thesis
    using Translation_divide_roundtrip [OF w s x] w s la unfolding float32_def by simp
qed

text \<open>
  The claim as stated, for every 3-vector, is false with the division as well: the
  encoded scalar component is 1 for every dtype, and the \<open>int64\<close> vector \<open>(1, 2, 3)\<close> is
  decoded to \<open>(0, 2, 2)\<close>, the \<open>float32\<close> vector \<open>(2 ^ -149, 0, 0)\<close> to 0.
\<close>

theorem Translation_divide_roundtrip_fails:
  "and_then (Translation_encode Int64 (Tensor [3] [1, 2, 3]))
     (\<lambda>m. Translation_decode m True default_threshold) = Inr (Tensor [3] [0, 2, 2]) \<and>
   and_then (Translation_encode float32 (Tensor [3] [1 / 2 ^ 149, 0, 0]))
     (\<lambda>m. Translation_decode m True default_threshold) = Inr (Tensor [3] [0, 0, 0])"
  by code_simp





text \<open>
  C3, as the code has it: \<open>Point.decode\<close>, \<open>Plane.decode\<close>, \<open>Rotation.encode\<close> and
  \<open>Rotation.decode\<close> (and \<open>Reflection.decode\<close>, which calls \<open>Plane.decode\<close>) raise nothing:
  for every argument they return \<open>None\<close>.
\<close>

theorem unimplemented_return_None:
  "Point_decode mvs = Inr None \<and> \<not> raises (Point_decode mvs) \<and>
   Plane_decode mvs = Inr None \<and> \<not> raises (Plane_decode mvs) \<and>
   Reflection_decode mvs = Inr None \<and> \<not> raises (Reflection_decode mvs) \<and>
   Rotation_encode q = Inr None \<and> \<not> raises (Rotation_encode q) \<and>
   Rotation_decode mvs = Inr None \<and> \<not> raises (Rotation_decode mvs)"
  by (simp add: Point_decode_def Plane_decode_def Reflection_decode_def Rotation_encode_def
      Rotation_decode_def raises_def)

text \<open>
  The claim as the specification states it, that each of the four calls fails with a
  "not implemented" signal, is false: on the multivector 0 and on the quaternion
  \<open>(1, 0, 0, 0)\<close> no call raises, and each returns \<open>None\<close>.
\<close>

theorem unimplemented_do_not_raise:
  "\<not> raises (Point_decode (zeros [16])) \<and> Point_decode (zeros [16]) = Inr None \<and>
   \<not> raises (Plane_decode (zeros [16])) \<and> Plane_decode (zeros [16]) = Inr None \<and>
   \<not> raises (Rotation_encode (Tensor [4] [1, 0, 0, 0])) \<and>
   Rotation_encode (Tensor [4] [1, 0, 0, 0]) = Inr None \<and>
   \<not> raises (Rotation_decode (zeros [16])) \<and> Rotation_decode (zeros [16]) = Inr None"
  by (simp add: Point_decode_def Plane_decode_def Rotation_encode_def Rotation_decode_def
      raises_def)

text \<open>
  The branch of \<open>Plane.encode\<close> for a distance \<open>d\<close> given as a 1-dimensional tensor of the
  dtype of the normals, whose values \<open>vs\<close> can be assigned to the batch of \<open>n\<close> (the values
  of \<open>d\<close> themselves when \<open>d\<close> has the shape of the batch): the normal is at the components
  2, 3, 4, the distance at component 1, all other components are 0, and
  \<open>geometric_product\<close> is not called.
\<close>

lemma Plane_encode_one_dim_distance:
  assumes "wf n" and "shape n = sh @ [3]" and "wf d" and "tdim d = 1"
    and "setitem_value sh d = Inr vs"
  shows "\<exists>m. Plane_encode gp dt dt n d = Inr m \<and> shape m = sh @ [16] \<and> wf m \<and>
           length vs = length (rows n) \<and>
           rows m = map2 (\<lambda>r x. [0, x, r ! 0, r ! 1, r ! 2, 0, 0, 0, 0, 0, 0, 0, 0, 0, 0, 0])
                      (rows n) vs \<and>
           (shape d = sh \<longrightarrow> vs = data d)"
proof -
  let ?H = "\<lambda>(r::real list) x::real. [0, x, r ! 0, r ! 1, r ! 2, 0, 0, 0, 0, 0, 0, 0, 0, 0, 0, 0]"
  let ?R = "map2 ?H (rows n) vs"
  let ?m = "Tensor (sh @ [16]) (concat ?R)"
  have enc: "Plane_encode gp dt dt n d = Inr ?m"
    using assms(2,1,4,5) by (rule Plane_encode_scalar_rows)
  have lv: "length vs = length (rows n)"
    using length_setitem_value [OF assms(3,5)] assms(2) by (simp add: length_rows)
  then have lR: "length ?R = prod_list sh"
    using assms(2) by (simp add: length_rows)
  have l16: "\<forall>r \<in> set ?R. length r = 16"
    by auto
  have "blocks (length ?R) 16 (concat ?R) = ?R"
    using l16 by (rule blocks_concat)
  then have rm: "rows ?m = ?R"
    using lR by (simp add: rows_def)
  have "length (concat ?R) = length ?R * 16"
    using l16 by (rule length_concat_uniform)
  then have wm: "wf ?m"
    using lR by (simp add: wf_def)
  have "shape d = sh \<longrightarrow> vs = data d"
    using assms(5) by (auto simp: setitem_value_def)
  with enc lv rm wm show ?thesis
    by (intro exI [of _ ?m]) simp
qed

lemma Plane_encode_one_dim_example:
  "wf (Tensor [2, 3] [1, 0, 0, 0, 0, 1 :: real]) \<and> shape (Tensor [2, 3] [1, 0, 0, 0, 0, 1 :: real]) = [2] @ [3] \<and>
   wf (Tensor [2] [5, 7 :: real]) \<and> tdim (Tensor [2] [5, 7 :: real]) = 1 \<and>
   setitem_value [2] (Tensor [2] [5, 7 :: real]) = Inr [5, 7] \<and>
   (\<exists>m. Plane_encode (\<lambda>a b. Inr a) float32 float32 (Tensor [2, 3] [1, 0, 0, 0, 0, 1]) (Tensor [2] [5, 7]) = Inr m \<and>
        shape m = [2, 16] \<and>
        rows m = [[0, 5, 1, 0, 0, 0, 0, 0, 0, 0, 0, 0, 0, 0, 0, 0],
                  [0, 7, 0, 0, 1, 0, 0, 0, 0, 0, 0, 0, 0, 0, 0, 0]])"
proof -
  let ?n = "Tensor [2, 3] [1, 0, 0, 0, 0, 1 :: real]" and ?d = "Tensor [2] [5, 7 :: real]"
  have w: "wf ?n" and s: "shape ?n = [2] @ [3]" and wd: "wf ?d" and dd: "tdim ?d = 1"
    and v: "setitem_value [2] ?d = Inr [5, 7]"
    by (simp_all add: wf_def tdim_def setitem_value_def)
  have r: "rows ?n = [[1, 0, 0], [0, 0, 1]]"
    by code_simp
  show ?thesis
    using Plane_encode_one_dim_distance [OF w s wd dd v, of "\<lambda>a b. Inr a" float32] w s wd dd v r
    by auto
qed

text \<open>
  C9: a distance given as a tensor of dimension 0, the scalar of the docstring
  ("the distance to the origin (scalar)"), is not placed at component 1. There
  \<open>distance.dim() == 1\<close> is false and the branch for a position is taken:
  \<open>Translation.encode(distance)\<close> slices a tensor that has no axis, and the call raises
  \<open>IndexError\<close>. The claim holds of the 1-dimensional distances above and fails here.
\<close>

theorem Plane_encode_zero_dim_distance:
  "Plane_encode (\<lambda>a b. Inr a) float32 float32 (Tensor [3] [0, 0, 1]) (Tensor [] [2])
     = Inl IndexError"
  by code_simp

section \<open>The layer claims\<close>




text \<open>
  C4, as the code has it: \<open>Bilinear(config)\<close> with an odd \<open>size_channels_intermediate\<close>
  raises \<open>ValueError\<close>, before any \<open>EquiLinear\<close> is constructed. With an even one it returns
  the layer, given that the two \<open>EquiLinear\<close> are constructed. The forward pass of a
  constructed layer with a positive \<open>size_channels_intermediate\<close>, on a multivector tensor
  of \<open>size_channels_hidden\<close> channels, returns a tensor of as many channels, the other
  axes unchanged, given that the two linear modules, \<open>geometric_product\<close> and \<open>equi_join\<close>
  keep their channel contracts on the tensors of this batch shape.
\<close>

theorem Bilinear_init_validation:
  "(size_channels_intermediate cfg mod 2 \<noteq> 0 \<longrightarrow> Bilinear_init EL cfg = Inl ValueError) \<and>
   (size_channels_intermediate cfg mod 2 = 0 \<and>
    EL (size_channels_hidden cfg) (size_channels_intermediate cfg * 2) = Inr pb \<and>
    EL (size_channels_intermediate cfg) (size_channels_hidden cfg) = Inr po \<longrightarrow>
      Bilinear_init EL cfg = Inr \<lparr>bil_config = cfg, bil_proj_bil = pb, bil_proj_out = po\<rparr>) \<and>
   (Bilinear_init EL cfg = Inr self \<and> 0 < size_channels_intermediate cfg \<and>
    wf x \<and> shape x = lead @ [c, 16] \<and> int c = size_channels_hidden cfg \<and>
    channel_map lead c (nat (size_channels_intermediate cfg * 2)) (bil_proj_bil self) \<and>
    channel_map lead (nat (size_channels_intermediate cfg)) c (bil_proj_out self) \<and>
    product_contract lead (nat (size_channels_intermediate cfg div 2)) gp \<and>
    join_contract lead (nat (size_channels_intermediate cfg div 2)) reference join \<longrightarrow>
      (\<exists>y. Bilinear_forward gp join self x reference = Inr y \<and> wf y \<and>
           shape y = lead @ [c, 16]))"
proof (intro conjI impI)
  assume "size_channels_intermediate cfg mod 2 \<noteq> 0"
  then show "Bilinear_init EL cfg = Inl ValueError"
    by (rule Bilinear_init_odd)
next
  assume "size_channels_intermediate cfg mod 2 = 0 \<and>
    EL (size_channels_hidden cfg) (size_channels_intermediate cfg * 2) = Inr pb \<and>
    EL (size_channels_intermediate cfg) (size_channels_hidden cfg) = Inr po"
  then show "Bilinear_init EL cfg = Inr \<lparr>bil_config = cfg, bil_proj_bil = pb, bil_proj_out = po\<rparr>"
    by (intro Bilinear_init_even) simp_all
next
  assume "Bilinear_init EL cfg = Inr self \<and> 0 < size_channels_intermediate cfg \<and>
    wf x \<and> shape x = lead @ [c, 16] \<and> int c = size_channels_hidden cfg \<and>
    channel_map lead c (nat (size_channels_intermediate cfg * 2)) (bil_proj_bil self) \<and>
    channel_map lead (nat (size_channels_intermediate cfg)) c (bil_proj_out self) \<and>
    product_contract lead (nat (size_channels_intermediate cfg div 2)) gp \<and>
    join_contract lead (nat (size_channels_intermediate cfg div 2)) reference join"
  then show "\<exists>y. Bilinear_forward gp join self x reference = Inr y \<and> wf y \<and>
           shape y = lead @ [c, 16]"
    by (intro Bilinear_forward_channels [of EL cfg]) simp_all
qed

theorem Bilinear_init_validation_witness:
  "size_channels_intermediate (ModelConfig_default\<lparr>size_channels_intermediate := 5\<rparr>) mod 2 \<noteq> 0 \<and>
   Bilinear_init zero_linear (ModelConfig_default\<lparr>size_channels_intermediate := 5\<rparr>)
     = Inl ValueError \<and>
   size_channels_intermediate ModelConfig_default mod 2 = 0 \<and>
   0 < size_channels_intermediate ModelConfig_default \<and>
   int 32 = size_channels_hidden ModelConfig_default \<and>
   product_contract [4, 10] 16 (\<lambda>a b. Inr a) \<and>
   join_contract [4, 10] 16 None (\<lambda>a b r. Inr b) \<and>
   wf (zeros [4, 10, 32, 16]) \<and>
   (\<exists>self. Bilinear_init zero_linear ModelConfig_default = Inr self \<and>
      channel_map [4, 10] 32 64 (bil_proj_bil self) \<and>
      channel_map [4, 10] 32 32 (bil_proj_out self) \<and>
      (\<exists>y. Bilinear_forward (\<lambda>a b. Inr a) (\<lambda>a b r. Inr b) self (zeros [4, 10, 32, 16]) None
             = Inr y \<and> shape y = [4, 10, 32, 16]))"
proof -
  let ?c5 = "ModelConfig_default\<lparr>size_channels_intermediate := 5\<rparr>"
  let ?c = "ModelConfig_default"
  let ?x = "zeros [4, 10, 32, 16]"
  obtain pb where pb: "zero_linear (size_channels_hidden ?c) (size_channels_intermediate ?c * 2)
      = Inr pb"
    by (simp add: zero_linear_def)
  obtain po where po: "zero_linear (size_channels_intermediate ?c) (size_channels_hidden ?c)
      = Inr po"
    by (simp add: zero_linear_def)
  let ?self = "\<lparr>bil_config = ?c, bil_proj_bil = pb, bil_proj_out = po\<rparr>"
  have odd: "size_channels_intermediate ?c5 mod 2 \<noteq> 0"
    by (simp add: ModelConfig_default_def)
  have even: "size_channels_intermediate ?c mod 2 = 0"
    by (simp add: ModelConfig_default_def)
  have pos: "0 < size_channels_intermediate ?c"
    and hid: "int 32 = size_channels_hidden ?c"
    by (simp_all add: ModelConfig_default_def)
  have gp: "product_contract [4, 10] 16 (\<lambda>a b. Inr a)"
    by (simp add: product_contract_def)
  have join: "join_contract [4, 10] 16 None (\<lambda>a b r. Inr b)"
    by (simp add: join_contract_def)
  have cb: "channel_map [4, 10] 32 64 pb"
    using zero_linear_channel_map [OF pb, of "[4, 10]"] by (simp add: ModelConfig_default_def)
  have co: "channel_map [4, 10] 32 32 po"
    using zero_linear_channel_map [OF po, of "[4, 10]"] by (simp add: ModelConfig_default_def)
  have sx: "shape ?x = [4, 10] @ [32, 16]"
    by (simp add: shape_zeros)
  have 1: "Bilinear_init zero_linear ?c5 = Inl ValueError"
    using Bilinear_init_validation [of ?c5 zero_linear, THEN conjunct1] odd by simp
  have 2: "Bilinear_init zero_linear ?c = Inr ?self"
    using Bilinear_init_validation [of ?c zero_linear pb po, THEN conjunct2, THEN conjunct1]
      even pb po by simp
  have "\<exists>y. Bilinear_forward (\<lambda>a b. Inr a) (\<lambda>a b r. Inr b) ?self ?x None = Inr y \<and> wf y \<and>
          shape y = [4, 10] @ [32, 16]"
    using Bilinear_init_validation [of ?c zero_linear pb po ?self ?x "[4, 10]" 32
        "\<lambda>a b. Inr a" None "\<lambda>a b r. Inr b", THEN conjunct2, THEN conjunct2]
      2 pos wf_zeros [of "[4, 10, 32, 16]"] sx hid cb co gp join
    by (simp add: ModelConfig_default_def)
  then have 3: "\<exists>y. Bilinear_forward (\<lambda>a b. Inr a) (\<lambda>a b r. Inr b) ?self ?x None = Inr y \<and>
          shape y = [4, 10, 32, 16]"
    by auto
  show ?thesis
    using odd 1 even pos hid gp join wf_zeros [of "[4, 10, 32, 16]"] 2 cb co 3
    by auto
qed

text \<open>
  The claim as the specification states it, for an even value, is false of the even
  value 0: the check of the constructor passes, the layer is constructed, and the
  forward pass raises \<open>ValueError\<close>, since \<open>torch.split\<close> with the size 0 returns one chunk
  of the empty channel axis and the unpacking needs four.
\<close>

theorem Bilinear_zero_intermediate:
  "size_channels_intermediate (ModelConfig_default\<lparr>size_channels_intermediate := 0\<rparr>) mod 2 = 0 \<and>
   \<not> raises (Bilinear_init zero_linear (ModelConfig_default\<lparr>size_channels_intermediate := 0\<rparr>)) \<and>
   and_then (Bilinear_init zero_linear (ModelConfig_default\<lparr>size_channels_intermediate := 0\<rparr>))
     (\<lambda>self. Bilinear_forward (\<lambda>a b. Inr a) (\<lambda>a b r. Inr b) self (zeros [32, 16]) None)
     = Inl ValueError"
  by code_simp

text \<open>
  C2: \<open>MLP.forward(x, reference)\<close> is the sum of \<open>x\<close> and
  \<open>p = proj_out(scaler_gated_gelu(Bilinear(layer_norm(x), reference)))\<close>: elementwise when
  \<open>p\<close> has the shape of \<open>x\<close>, and \<open>x\<close> itself when \<open>p\<close> is zero.
\<close>

theorem MLP_forward_residual:
  assumes "mlp_layer_norm self x = Inr n"
    and "Bilinear_forward gp join (mlp_equi_bil self) n reference = Inr b"
    and "gelu b = Inr a"
    and "mlp_proj_out self a = Inr p"
  shows "MLP_forward gp join gelu self x reference = binop (+) p x \<and>
         (wf p \<and> wf x \<and> shape p = shape x \<longrightarrow>
            MLP_forward gp join gelu self x reference
              = Inr (Tensor (shape x) (map2 (+) (data p) (data x)))) \<and>
         (wf x \<and> p = zeros (shape x) \<longrightarrow> MLP_forward gp join gelu self x reference = Inr x)"
proof -
  have m: "MLP_forward gp join gelu self x reference = binop (+) p x"
    unfolding MLP_forward_def Let_def assms and_then_def sum.case ..
  have e: "wf p \<and> wf x \<and> shape p = shape x \<longrightarrow>
      binop (+) p x = Inr (Tensor (shape x) (map2 (+) (data p) (data x)))"
    using binop_same_shape [of p x "(+)"] by auto
  have z: "wf x \<and> p = zeros (shape x) \<longrightarrow> binop (+) p x = Inr x"
  proof
    assume h: "wf x \<and> p = zeros (shape x)"
    then have "binop (+) p x = Inr (Tensor (shape x) (map2 (+) (data p) (data x)))"
      using binop_same_shape [of p x "(+)"] by (simp add: wf_zeros shape_zeros)
    moreover have "map2 (+) (data p) (data x) = data x"
      using h by (simp add: zeros_def wf_def map2_add_zeros)
    ultimately show "binop (+) p x = Inr x"
      by (cases x) simp
  qed
  from m e z show ?thesis by simp
qed


theorem MLP_forward_residual_witness:
  "MLP_forward (binop (*)) (\<lambda>a b r. binop (+) a b) Inr
     \<lparr>mlp_config = ModelConfig_default\<lparr>size_channels_hidden := 1, size_channels_intermediate := 2\<rparr>,
      mlp_layer_norm = Inr,
      mlp_equi_bil =
        \<lparr>bil_config = ModelConfig_default\<lparr>size_channels_hidden := 1, size_channels_intermediate := 2\<rparr>,
         bil_proj_bil = (\<lambda>t. Inr (Tensor [4, 2] [1, 2, 3, 4, 5, 6, 7, 8])),
         bil_proj_out = (\<lambda>t. Inr (Tensor [1, 2] [10, 20]))\<rparr>,
      mlp_proj_out = Inr\<rparr>
     (Tensor [1, 2] [1, 2]) None
   = Inr (Tensor [1, 2] [11, 22]) \<and>
   MLP_forward (binop (*)) (\<lambda>a b r. binop (+) a b) Inr
     \<lparr>mlp_config = ModelConfig_default\<lparr>size_channels_hidden := 1, size_channels_intermediate := 2\<rparr>,
      mlp_layer_norm = Inr,
      mlp_equi_bil =
        \<lparr>bil_config = ModelConfig_default\<lparr>size_channels_hidden := 1, size_channels_intermediate := 2\<rparr>,
         bil_proj_bil = (\<lambda>t. Inr (Tensor [4, 2] [1, 2, 3, 4, 5, 6, 7, 8])),
         bil_proj_out = (\<lambda>t. Inr (Tensor [1, 2] [10, 20]))\<rparr>,
      mlp_proj_out = (\<lambda>t. Inr (zeros [1, 2]))\<rparr>
     (Tensor [1, 2] [1, 2]) None
   = Inr (Tensor [1, 2] [1, 2])"
proof -
  let ?cfg = "ModelConfig_default\<lparr>size_channels_hidden := 1, size_channels_intermediate := 2\<rparr>"
  let ?bil = "\<lparr>bil_config = ?cfg,
                bil_proj_bil = (\<lambda>t. Inr (Tensor [4, 2] [1, 2, 3, 4, 5, 6, 7, 8 :: real])),
                bil_proj_out = (\<lambda>t. Inr (Tensor [1, 2] [10, 20 :: real]))\<rparr>"
  let ?m1 = "\<lparr>mlp_config = ?cfg, mlp_layer_norm = Inr, mlp_equi_bil = ?bil, mlp_proj_out = Inr\<rparr>"
  let ?m2 = "\<lparr>mlp_config = ?cfg, mlp_layer_norm = Inr, mlp_equi_bil = ?bil,
               mlp_proj_out = (\<lambda>t. Inr (zeros [1, 2]))\<rparr>"
  let ?x = "Tensor [1, 2] [1, 2 :: real]" and ?b = "Tensor [1, 2] [10, 20 :: real]"
  have b: "Bilinear_forward (binop (*)) (\<lambda>a b r. binop (+) a b) ?bil ?x None = Inr ?b"
    by code_simp
  have w: "wf ?b" "wf ?x" "shape ?b = shape ?x"
    by (simp_all add: wf_def)
  have 1: "MLP_forward (binop (*)) (\<lambda>a b r. binop (+) a b) Inr ?m1 ?x None
           = Inr (Tensor [1, 2] [11, 22])"
    using MLP_forward_residual [of ?m1 ?x ?x "binop (*)" "\<lambda>a b r. binop (+) a b" None ?b Inr ?b ?b,
        THEN conjunct2, THEN conjunct1] b w
    by simp
  have 2: "MLP_forward (binop (*)) (\<lambda>a b r. binop (+) a b) Inr ?m2 ?x None = Inr ?x"
    using MLP_forward_residual [of ?m2 ?x ?x "binop (*)" "\<lambda>a b r. binop (+) a b" None ?b Inr ?b
        "zeros [1, 2]", THEN conjunct2, THEN conjunct2] b w
    by simp
  from 1 2 show ?thesis by simp
qed

end
